theory Spec2Isabelle
  imports Main
begin

section \<open>The JTVAE dataset and collator of dgllife/data/jtvae.py\<close>

text \<open>
  The module holds a dataset class (\<open>JTVAEDataset\<close>) that reads one SMILES string per line
  of a file and builds, per index, a junction tree and its graphs, and a collate function
  (\<open>JTVAECollator\<close>) that merges datapoints into a batch with index tensors. Both are
  modelled here as the Python is written: exceptions are values of a sum type, the
  attributes of the dataset object are a record that every access returns updated, Python
  dictionaries that are iterated in order are association lists, and every loop is a
  recursive function. What the module imports from RDKit, DGL, torch and the rest of the
  package (tree construction, featurisation, graph batching) is a parameter of the model:
  a record of functions, each of which may raise.
\<close>

subsection \<open>Exceptions\<close>

datatype error =
    IndexError
  | KeyError
  | ValueError
  | TypeError
  | LibraryError string

subsection \<open>Python strings: \<open>str.strip(chars)\<close> and \<open>str.split()\<close>\<close>

text \<open>
  A character is a code point below 256. \<open>isspace\<close> is Python's \<open>str.isspace\<close> on one
  such character: tab, line feed, vertical tab, form feed, carriage return, the four
  separators 0x1C to 0x1F, space, and the two Latin-1 characters 0x85 and 0xA0.
\<close>

definition isspace :: "char \<Rightarrow> bool" where
  "isspace c = List.member
     [CHR 0x09, CHR 0x0A, CHR 0x0B, CHR 0x0C, CHR 0x0D,
      CHR 0x1C, CHR 0x1D, CHR 0x1E, CHR 0x1F, CHR 0x20, CHR 0x85, CHR 0xA0] c"

text \<open>\<open>s.strip(chars)\<close>: drop the characters of \<open>chars\<close> from both ends.\<close>

definition strip :: "string \<Rightarrow> string \<Rightarrow> string" where
  "strip chars s =
     rev (dropWhile (List.member chars) (rev (dropWhile (List.member chars) s)))"

text \<open>
  \<open>s.split()\<close> with no separator: skip a run of whitespace, take the run of other
  characters as a token, and go on after it; no empty token is produced.
\<close>

function split :: "string \<Rightarrow> string list" where
  "split s =
     (let s' = dropWhile isspace s in
      if s' = [] then []
      else takeWhile (\<lambda>c. \<not> isspace c) s' # split (dropWhile (\<lambda>c. \<not> isspace c) s'))"
  by pat_completeness auto
termination
proof (relation "measure length")
  show "wf (measure length)" by simp
next
  fix s s' :: string
  assume s': "s' = dropWhile isspace s" and ne: "s' \<noteq> []"
  from ne obtain c cs where cs: "s' = c # cs" by (cases s') auto
  have "dropWhile isspace s = c # cs"
    using s' cs by simp
  then have "\<not> isspace c"
    by (rule dropWhile_eq_Cons_conv [THEN iffD1, THEN conjunct2])
  then have "dropWhile (\<lambda>c. \<not> isspace c) s' = dropWhile (\<lambda>c. \<not> isspace c) cs"
    using cs by simp
  then have "length (dropWhile (\<lambda>c. \<not> isspace c) s') \<le> length cs"
    by (simp add: length_dropWhile_le)
  moreover have "length s' \<le> length s"
    using s' by (simp add: length_dropWhile_le)
  ultimately show "(dropWhile (\<lambda>c. \<not> isspace c) s', s) \<in> measure length"
    using cs by simp
qed

declare split.simps [simp del]

text \<open>The \<open>\<dots>[0]\<close> of a list: \<open>IndexError\<close> on the empty list.\<close>

definition first :: "'a list \<Rightarrow> error + 'a" where
  "first xs = (case xs of [] \<Rightarrow> Inl IndexError | x # _ \<Rightarrow> Inr x)"

text \<open>
  Python indexing \<open>xs[idx]\<close> of a list of length \<open>n\<close>: a negative index counts from the
  end, anything outside \<open>-n \<le> idx < n\<close> raises \<open>IndexError\<close>.
\<close>

definition py_index :: "nat \<Rightarrow> int \<Rightarrow> error + nat" where
  "py_index n idx =
     (if 0 \<le> idx \<and> idx < int n then Inr (nat idx)
      else if - int n \<le> idx \<and> idx < 0 then Inr (nat (int n + idx))
      else Inl IndexError)"

text \<open>Sequencing of calls that may raise: the first exception ends the computation.\<close>

definition bind :: "error + 'a \<Rightarrow> ('a \<Rightarrow> error + 'b) \<Rightarrow> error + 'b" where
  "bind m f = (case m of Inl e \<Rightarrow> Inl e | Inr x \<Rightarrow> f x)"

text \<open>A list comprehension \<open>[f(x) for x in xs]\<close> whose body may raise.\<close>

fun mapM :: "('a \<Rightarrow> error + 'b) \<Rightarrow> 'a list \<Rightarrow> error + 'b list" where
  "mapM f [] = Inr []"
| "mapM f (x # xs) = bind (f x) (\<lambda>y. bind (mapM f xs) (\<lambda>ys. Inr (y # ys)))"

text \<open>\<open>xs[idx]\<close> and \<open>xs[idx] = v\<close> on a Python list.\<close>

definition py_get :: "'a list \<Rightarrow> int \<Rightarrow> error + 'a" where
  "py_get xs idx = bind (py_index (length xs) idx) (\<lambda>k. Inr (xs ! k))"

definition py_set :: "'a list \<Rightarrow> int \<Rightarrow> 'a \<Rightarrow> error + 'a list" where
  "py_set xs idx v = bind (py_index (length xs) idx) (\<lambda>k. Inr (xs[k := v]))"

subsection \<open>The data the module works on\<close>

text \<open>
  An RDKit molecule as the collator reads it: its bonds, each with its two atoms, an atom
  with its index in the molecule and its atom map number, and the number of atoms.
\<close>

record atom =
  GetIdx :: nat
  GetAtomMapNum :: int

record bond =
  GetBeginAtom :: atom
  GetEndAtom :: atom

record rdmol =
  GetBonds :: "bond list"
  GetNumAtoms :: nat

text \<open>
  The values that the module passes to the featuriser and keeps in \<open>stereo_cands\<close>: a
  SMILES string, a molecule, a graph (of the graph library's type \<open>'g\<close>) or \<open>None\<close>.
\<close>

datatype 'g pyobj = Str string | Mol rdmol | Graph 'g | PyNone

text \<open>
  A cluster node of a junction tree is a Python dictionary; \<open>idx\<close> is \<open>None\<close> while the
  key \<open>'idx'\<close> is absent.
\<close>

record node =
  label :: string
  cands :: "string list"
  cand_mols :: "rdmol list"
  label_mol :: rdmol
  smiles :: string
  is_leaf :: bool
  idx :: "int option"

text \<open>
  A \<open>MolTree\<close>, with the attributes this module reads. \<open>nodes_dict\<close> is a dictionary
  from node ids to nodes, iterated in insertion order: an association list, whose keys
  are distinct in every dictionary.
\<close>

record 'g mol_tree =
  smiles3D :: string
  stereo_cands :: "'g pyobj list"
  nodes_dict :: "(int \<times> node) list"
  graph :: 'g

text \<open>
  The four featuriser factories of the module only fix the feature lists; what reaches
  the graph constructor is which pair is used: the encoder's or the decoder's.
\<close>

datatype featurizer = Enc | Dec

text \<open>
  The functions the module calls and does not define. \<open>set_wid\<close> is the assignment
  \<open>graph.ndata['wid'] = torch.LongTensor(wid)\<close>; \<open>copy_src\<close> is the pair of statements
  \<open>g.apply_edges(fn.copy_u('x', 'src'))\<close> and
  \<open>g.edata['x'] = torch.cat([g.edata.pop('src'), g.edata['x']], dim=1)\<close>;
  \<open>dgl_batch\<close> is \<open>dgl.batch\<close>, which is also handed a list that may hold \<open>None\<close>.
\<close>

record 'g library =
  MolTree :: "string \<Rightarrow> error + 'g mol_tree"
  recover :: "'g mol_tree \<Rightarrow> error + 'g mol_tree"
  assemble :: "'g mol_tree \<Rightarrow> error + 'g mol_tree"
  set_wid :: "'g \<Rightarrow> int list \<Rightarrow> error + 'g"
  get_mol :: "string \<Rightarrow> error + 'g pyobj"
  mol_to_bigraph :: "featurizer \<Rightarrow> 'g pyobj \<Rightarrow> error + 'g"
  copy_src :: "'g \<Rightarrow> error + 'g"
  dgl_batch :: "'g option list \<Rightarrow> error + 'g"
  has_edges_between :: "'g \<Rightarrow> int \<Rightarrow> int \<Rightarrow> error + bool"

subsection \<open>\<open>JTVAEDataset\<close>\<close>

text \<open>
  The attributes of the dataset object. \<open>vocab\<close> is the vocabulary's \<open>get_index\<close>. The
  four cache lists exist only when \<open>cache\<close> is set; they are empty here otherwise and
  never read.
\<close>

record 'g dataset =
  data :: "string list"
  vocab :: "string \<Rightarrow> error + int"
  cache :: bool
  trees :: "'g mol_tree option list"
  mol_graphs :: "'g option list"
  cand_graphs :: "'g list option list"
  stereo_cand_graphs :: "'g list option list"
  training :: bool

text \<open>
  \<open>__init__\<close>, from the lines that iterating over the open file yields:
  \<open>self.data = [line.strip("\r\n ").split()[0] for line in f]\<close>.
\<close>

definition parse_line :: "string \<Rightarrow> error + string" where
  "parse_line line = first (split (strip [CHR 0x0D, CHR 0x0A, CHR 0x20] line))"

definition init :: "string list \<Rightarrow> (string \<Rightarrow> error + int) \<Rightarrow> bool \<Rightarrow> bool \<Rightarrow> error + 'g dataset" where
  "init lines voc cache_flag training_flag =
     bind (mapM parse_line lines) (\<lambda>d.
       Inr \<lparr>data = d, vocab = voc, cache = cache_flag,
            trees = (if cache_flag then replicate (length d) None else []),
            mol_graphs = (if cache_flag then replicate (length d) None else []),
            cand_graphs = (if cache_flag then replicate (length d) None else []),
            stereo_cand_graphs = (if cache_flag then replicate (length d) None else []),
            training = training_flag\<rparr>)"

text \<open>
  The specification's wording for a stored datapoint, "the first whitespace-separated
  token" of a string: what follows the leading whitespace, up to the next whitespace.
\<close>

definition first_token :: "string \<Rightarrow> string" where
  "first_token s = takeWhile (\<lambda>c. \<not> isspace c) (dropWhile isspace s)"

text \<open>\<open>__len__\<close>.\<close>

definition len :: "'g dataset \<Rightarrow> nat" where
  "len ds = length (data ds)"

text \<open>What \<open>__getitem__\<close> returns: a pair, or a 4-tuple in training mode.\<close>

datatype 'g item =
    Tuple2 "'g mol_tree" "'g option"
  | Tuple4 "'g mol_tree" "'g option" "'g list option" "'g list option"

text \<open>
  Lines 173 to 176: a node whose label is not among its candidates gets the label and
  the label's molecule appended.
\<close>

definition add_label :: "node \<Rightarrow> node" where
  "add_label nd =
     (if label nd \<notin> set (cands nd)
      then nd\<lparr>cands := cands nd @ [label nd], cand_mols := cand_mols nd @ [label_mol nd]\<rparr>
      else nd)"

text \<open>A graph from a molecule, with the source atom's features copied onto each edge.\<close>

definition featurize :: "'g library \<Rightarrow> featurizer \<Rightarrow> 'g pyobj \<Rightarrow> error + 'g" where
  "featurize L fz x = bind (mol_to_bigraph L fz x) (copy_src L)"

text \<open>Lines 168 to 190: the tree and the molecular graph of a SMILES string.\<close>

definition construct ::
  "'g library \<Rightarrow> (string \<Rightarrow> error + int) \<Rightarrow> string \<Rightarrow> error + ('g mol_tree \<times> 'g)" where
  "construct L voc smi =
     bind (MolTree L smi) (\<lambda>t0.
     bind (recover L t0) (\<lambda>t1.
     bind (assemble L t1) (\<lambda>t2.
     let t3 = t2\<lparr>nodes_dict := map (\<lambda>(node_id, nd). (node_id, add_label nd)) (nodes_dict t2)\<rparr> in
     bind (mapM (\<lambda>(node_id, nd). voc (smiles nd)) (nodes_dict t3)) (\<lambda>wid.
     bind (set_wid L (graph t3) wid) (\<lambda>g.
     bind (get_mol L smi) (\<lambda>mol.
     bind (featurize L Enc mol) (\<lambda>mol_graph.
     Inr (t3\<lparr>graph := g\<rparr>, mol_graph))))))))"

text \<open>
  \<open>self.cache and self.trees[idx] is not None\<close>: the cached tree, or \<open>None\<close> when there
  is no cache or no tree yet.
\<close>

definition cached_tree :: "'g dataset \<Rightarrow> int \<Rightarrow> error + 'g mol_tree option" where
  "cached_tree ds i = (if cache ds then py_get (trees ds) i else Inr None)"

text \<open>
  Lines 164 to 194. The result is the exception or the tree and the graph, and the
  dataset as the statements executed so far have left it.
\<close>

definition fetch ::
  "'g library \<Rightarrow> 'g dataset \<Rightarrow> int \<Rightarrow> (error + ('g mol_tree \<times> 'g option)) \<times> 'g dataset" where
  "fetch L ds i =
     (case cached_tree ds i of
        Inl e \<Rightarrow> (Inl e, ds)
      | Inr (Some mol_tree) \<Rightarrow>
          (bind (py_get (mol_graphs ds) i) (\<lambda>mol_graph. Inr (mol_tree, mol_graph)), ds)
      | Inr None \<Rightarrow>
          (case bind (py_get (data ds) i) (construct L (vocab ds)) of
             Inl e \<Rightarrow> (Inl e, ds)
           | Inr (mol_tree, mol_graph) \<Rightarrow>
               if cache ds then
                 (case py_set (trees ds) i (Some mol_tree) of
                    Inl e \<Rightarrow> (Inl e, ds)
                  | Inr ts \<Rightarrow>
                      (case py_set (mol_graphs ds) i (Some mol_graph) of
                         Inl e \<Rightarrow> (Inl e, ds\<lparr>trees := ts\<rparr>)
                       | Inr gs \<Rightarrow>
                           (Inr (mol_tree, Some mol_graph), ds\<lparr>trees := ts, mol_graphs := gs\<rparr>)))
               else (Inr (mol_tree, Some mol_graph), ds)))"

text \<open>
  Lines 203 to 215: the candidate graphs of the nodes that are neither leaves nor have a
  single candidate. (The \<open>print(cand)\<close> of line 209 writes to the standard output and
  is not modelled.)
\<close>

fun cand_mols_loop :: "'g library \<Rightarrow> rdmol list \<Rightarrow> 'g list \<Rightarrow> error + 'g list" where
  "cand_mols_loop L [] cgs = Inr cgs"
| "cand_mols_loop L (cand # rest) cgs =
     bind (featurize L Dec (Mol cand)) (\<lambda>cg. cand_mols_loop L rest (cgs @ [cg]))"

fun cand_nodes_loop :: "'g library \<Rightarrow> (int \<times> node) list \<Rightarrow> 'g list \<Rightarrow> error + 'g list" where
  "cand_nodes_loop L [] cgs = Inr cgs"
| "cand_nodes_loop L ((node_id, nd) # rest) cgs =
     (if is_leaf nd \<or> length (cands nd) = 1 then cand_nodes_loop L rest cgs
      else bind (cand_mols_loop L (cand_mols nd) cgs) (cand_nodes_loop L rest))"

text \<open>
  Lines 223 to 229: \<open>for cand in stereo_cands: \<dots> stereo_cands.append(cg)\<close>. A Python
  \<open>for\<close> over a list reads position \<open>k\<close> as long as \<open>k\<close> is below the current length, and
  the body appends to the very list that is iterated (not to \<open>stereo_cand_graphs\<close>).
  The loop need not end, so not returning is the value \<open>None\<close>.
\<close>

partial_function (option) stereo_loop ::
  "'g library \<Rightarrow> nat \<Rightarrow> 'g pyobj list \<Rightarrow> (error + 'g pyobj list) option" where
  "stereo_loop L k cs =
     (if k < length cs then
        (case featurize L Enc (cs ! k) of
           Inl e \<Rightarrow> Some (Inl e)
         | Inr cg \<Rightarrow> stereo_loop L (Suc k) (cs @ [Graph cg]))
      else Some (Inr cs))"

declare stereo_loop.simps [code]

text \<open>
  Lines 217 to 229. \<open>stereo_cands\<close> is the tree's own list, so the tree is returned with
  the list as the loop left it; \<open>stereo_cand_graphs\<close> is still the empty list of line 217.
\<close>

definition stereo :: "'g library \<Rightarrow> 'g mol_tree \<Rightarrow> (error + 'g mol_tree \<times> 'g list) option" where
  "stereo L t =
     (if length (stereo_cands t) \<noteq> 1 then
        (case stereo_loop L 0
                (if Str (smiles3D t) \<notin> set (stereo_cands t)
                 then stereo_cands t @ [Str (smiles3D t)] else stereo_cands t) of
           None \<Rightarrow> None
         | Some (Inl e) \<Rightarrow> Some (Inl e)
         | Some (Inr cs) \<Rightarrow> Some (Inr (t\<lparr>stereo_cands := cs\<rparr>, [])))
      else Some (Inr (t, [])))"

text \<open>Lines 231 to 233.\<close>

definition store_cands ::
  "'g dataset \<Rightarrow> int \<Rightarrow> 'g list \<Rightarrow> 'g list \<Rightarrow> (error + unit) \<times> 'g dataset" where
  "store_cands ds i cgs scgs =
     (if cache ds then
        (case py_set (cand_graphs ds) i (Some cgs) of
           Inl e \<Rightarrow> (Inl e, ds)
         | Inr cs \<Rightarrow>
             (case py_set (stereo_cand_graphs ds) i (Some scgs) of
                Inl e \<Rightarrow> (Inl e, ds\<lparr>cand_graphs := cs\<rparr>)
              | Inr ss \<Rightarrow> (Inr (), ds\<lparr>cand_graphs := cs, stereo_cand_graphs := ss\<rparr>)))
      else (Inr (), ds))"

text \<open>
  \<open>__getitem__\<close>. \<open>None\<close> is a call that does not return; otherwise the exception or the
  datapoint, with the dataset as the call left it.
\<close>

definition getitem ::
  "'g library \<Rightarrow> 'g dataset \<Rightarrow> int \<Rightarrow> ((error + 'g item) \<times> 'g dataset) option" where
  "getitem L ds i =
     (case fetch L ds i of
        (Inl e, ds1) \<Rightarrow> Some (Inl e, ds1)
      | (Inr (mol_tree, mol_graph), ds1) \<Rightarrow>
          if \<not> training ds1 then Some (Inr (Tuple2 mol_tree mol_graph), ds1)
          else
            (case cached_tree ds1 i of
               Inl e \<Rightarrow> Some (Inl e, ds1)
             | Inr (Some _) \<Rightarrow>
                 Some (bind (py_get (cand_graphs ds1) i) (\<lambda>cgs.
                       bind (py_get (stereo_cand_graphs ds1) i) (\<lambda>scgs.
                       Inr (Tuple4 mol_tree mol_graph cgs scgs))), ds1)
             | Inr None \<Rightarrow>
                 (case cand_nodes_loop L (nodes_dict mol_tree) [] of
                    Inl e \<Rightarrow> Some (Inl e, ds1)
                  | Inr cgs \<Rightarrow>
                      (case stereo L mol_tree of
                         None \<Rightarrow> None
                       | Some (Inl e) \<Rightarrow> Some (Inl e, ds1)
                       | Some (Inr (mol_tree', scgs)) \<Rightarrow>
                           (case store_cands ds1 i cgs scgs of
                              (Inl e, ds2) \<Rightarrow> Some (Inl e, ds2)
                            | (Inr _, ds2) \<Rightarrow>
                                Some (Inr (Tuple4 mol_tree' mol_graph (Some cgs) (Some scgs)), ds2))))))"

text \<open>
  The datasets that a program can hold: one that \<open>__init__\<close> has built, after any
  number of \<open>__getitem__\<close> calls that returned or raised.
\<close>

inductive reachable :: "'g library \<Rightarrow> 'g dataset \<Rightarrow> bool" for L :: "'g library" where
  built: "init lines voc cache_flag training_flag = Inr ds \<Longrightarrow> reachable L ds"
| accessed: "reachable L ds \<Longrightarrow> getitem L ds i = Some (r, ds') \<Longrightarrow> reachable L ds'"

text \<open>
  What holds of every such dataset: the tree and graph caches are as long as the data,
  the two candidate caches hold \<open>None\<close> only, and a tree is cached only at an index
  whose SMILES string construction accepts. (A cached dataset hands out the tree objects
  it keeps, so what the collator later writes into a tree is seen through the cache as
  well; the record keeps each tree as it was stored, and nothing below depends on the
  content of a cached tree.)
\<close>

definition dataset_inv :: "'g library \<Rightarrow> 'g dataset \<Rightarrow> bool" where
  "dataset_inv L ds \<longleftrightarrow>
     (cache ds \<longrightarrow> length (trees ds) = length (data ds) \<and> length (mol_graphs ds) = length (data ds)) \<and>
     (\<forall>c\<in>set (cand_graphs ds). c = None) \<and> (\<forall>c\<in>set (stereo_cand_graphs ds). c = None) \<and>
     (\<forall>k<length (trees ds). trees ds ! k \<noteq> None \<longrightarrow>
        (\<exists>r. construct L (vocab ds) (data ds ! k) = Inr r))"

subsection \<open>\<open>JTVAECollator\<close>\<close>

text \<open>
  A tensor as far as the collator determines it: its shape, its element type and its
  entries in row-major order. The entries are kept as unbounded integers; the batch
  indices written here are far below the 32-bit and 64-bit limits of the element types.
\<close>

datatype dtype = Float32 | Int32 | Int64

record tensor =
  shape :: "nat list"
  dtype :: dtype
  entries :: "int list"

text \<open>\<open>torch.zeros(*dims)\<close>, \<open>.int()\<close>, \<open>.long()\<close>.\<close>

definition zeros :: "nat list \<Rightarrow> tensor" where
  "zeros dims = \<lparr>shape = dims, dtype = Float32, entries = replicate (prod_list dims) 0\<rparr>"

definition to_int :: "tensor \<Rightarrow> tensor" where
  "to_int t = t\<lparr>dtype := Int32\<rparr>"

definition to_long :: "tensor \<Rightarrow> tensor" where
  "to_long t = t\<lparr>dtype := Int64\<rparr>"

text \<open>
  \<open>torch.IntTensor\<close> of a list of pairs and \<open>torch.LongTensor\<close> of a list of integers.
  Of the empty list, torch makes a tensor of shape \<open>[0]\<close> in both cases.
\<close>

definition IntTensor :: "(int \<times> int) list \<Rightarrow> tensor" where
  "IntTensor ps =
     \<lparr>shape = (if ps = [] then [0] else [length ps, 2]), dtype = Int32,
      entries = concat (map (\<lambda>(a, b). [a, b]) ps)\<rparr>"

definition LongTensor :: "int list \<Rightarrow> tensor" where
  "LongTensor xs = \<lparr>shape = [length xs], dtype = Int64, entries = xs\<rparr>"

text \<open>What \<open>__call__\<close> returns in training mode, and in both modes.\<close>

record 'g train_batch =
  batch_trees :: "'g mol_tree list"
  batch_tree_graphs :: 'g
  batch_mol_graphs :: 'g
  cand_batch_idx :: tensor
  batch_cand_graphs :: 'g
  tree_mess_source_edges :: tensor
  tree_mess_target_edges :: tensor
  stereo_cand_batch_idx :: tensor
  stereo_cand_labels :: "(int \<times> int) list"
  batch_stereo_cand_graphs :: 'g

datatype 'g batch =
    Eval_batch "'g mol_tree list" 'g 'g
  | Train_batch "'g train_batch"

text \<open>
  \<open>map(list, zip(*data))\<close> unpacked into four names, or into two. \<open>zip\<close> stops at the
  shortest datapoint, and unpacking raises \<open>ValueError\<close> unless the number of lists is
  the number of names: four names need a non-empty batch of 4-tuples only, two names
  a batch with a pair in it.
\<close>

fun item_tree :: "'g item \<Rightarrow> 'g mol_tree" where
  "item_tree (Tuple2 t g) = t"
| "item_tree (Tuple4 t g c s) = t"

fun item_graph :: "'g item \<Rightarrow> 'g option" where
  "item_graph (Tuple2 t g) = g"
| "item_graph (Tuple4 t g c s) = g"

fun is_Tuple4 :: "'g item \<Rightarrow> bool" where
  "is_Tuple4 (Tuple2 t g) = False"
| "is_Tuple4 (Tuple4 t g c s) = True"

fun unzip4 ::
  "'g item list \<Rightarrow>
   ('g mol_tree list \<times> 'g option list \<times> 'g list option list \<times> 'g list option list) option" where
  "unzip4 [] = Some ([], [], [], [])"
| "unzip4 (Tuple2 t g # rest) = None"
| "unzip4 (Tuple4 t g c s # rest) =
     (case unzip4 rest of
        None \<Rightarrow> None
      | Some (ts, gs, cs, ss) \<Rightarrow> Some (t # ts, g # gs, c # cs, s # ss))"

definition unzip_train ::
  "'g item list \<Rightarrow>
   error + ('g mol_tree list \<times> 'g option list \<times> 'g list option list \<times> 'g list option list)" where
  "unzip_train batch =
     (if batch = [] then Inl ValueError
      else case unzip4 batch of None \<Rightarrow> Inl ValueError | Some r \<Rightarrow> Inr r)"

definition unzip_eval :: "'g item list \<Rightarrow> error + ('g mol_tree list \<times> 'g option list)" where
  "unzip_eval batch =
     (if batch = [] \<or> list_all is_Tuple4 batch then Inl ValueError
      else Inr (map item_tree batch, map item_graph batch))"

text \<open>
  Lines 305 to 309: \<open>tree.nodes_dict[node_id]['idx'] = tot; tot += 1\<close> for every key of
  every tree, with one counter for the whole batch.
\<close>

fun set_idx_keys :: "int list \<Rightarrow> (int \<times> node) list \<Rightarrow> int \<Rightarrow> (int \<times> node) list \<times> int" where
  "set_idx_keys [] nodes tot = (nodes, tot)"
| "set_idx_keys (node_id # keys) nodes tot =
     set_idx_keys keys
       (map (\<lambda>(k, nd). if k = node_id then (k, nd\<lparr>idx := Some tot\<rparr>) else (k, nd)) nodes)
       (tot + 1)"

fun set_idx_trees :: "'g mol_tree list \<Rightarrow> int \<Rightarrow> 'g mol_tree list" where
  "set_idx_trees [] tot = []"
| "set_idx_trees (tree # rest) tot =
     (case set_idx_keys (map fst (nodes_dict tree)) (nodes_dict tree) tot of
        (nodes, tot') \<Rightarrow> tree\<lparr>nodes_dict := nodes\<rparr> # set_idx_trees rest tot')"

text \<open>
  The local variables of lines 311 to 341. \<open>loop_i\<close> is the one variable \<open>i\<close> that both the
  loop over the trees (line 316) and the loop over the bonds (line 322) assign.
\<close>

record cstate =
  loop_i :: int
  n_nodes :: int
  cand_idx_list :: "int list"
  source_edges :: "(int \<times> int) list"
  target_edges :: "(int \<times> int) list"

text \<open>\<open>tree.nodes_dict[nid - 1]['idx'] if nid > 0 else -1\<close>.\<close>

definition node_bid :: "'g mol_tree \<Rightarrow> int \<Rightarrow> error + int" where
  "node_bid tree nid =
     (if nid > 0 then
        (case map_of (nodes_dict tree) (nid - 1) of
           None \<Rightarrow> Inl KeyError
         | Some nd \<Rightarrow> (case idx nd of None \<Rightarrow> Inl KeyError | Some v \<Rightarrow> Inr v))
      else Inr (- 1))"

text \<open>Lines 322 to 337: the bonds of one candidate molecule.\<close>

fun bond_loop ::
  "'g library \<Rightarrow> 'g \<Rightarrow> 'g mol_tree \<Rightarrow> (nat \<times> bond) list \<Rightarrow> cstate \<Rightarrow> error + cstate" where
  "bond_loop L G tree [] st = Inr st"
| "bond_loop L G tree ((j, b) # rest) st =
     (let st1 = st\<lparr>loop_i := int j\<rparr>;
          a1 = GetBeginAtom b; a2 = GetEndAtom b;
          begin_idx = int (GetIdx a1); end_idx = int (GetIdx a2);
          x_nid = GetAtomMapNum a1; y_nid = GetAtomMapNum a2
      in bind (node_bid tree x_nid) (\<lambda>x_bid.
         bind (node_bid tree y_nid) (\<lambda>y_bid.
         if x_bid \<ge> 0 \<and> y_bid \<ge> 0 \<and> x_bid \<noteq> y_bid then
           bind (has_edges_between L G x_bid y_bid) (\<lambda>forward.
           if forward then
             bond_loop L G tree rest
               (st1\<lparr>source_edges := source_edges st1 @ [(x_bid, y_bid)],
                    target_edges := target_edges st1 @
                      [(begin_idx + n_nodes st1, end_idx + n_nodes st1)]\<rparr>)
           else
             bind (has_edges_between L G y_bid x_bid) (\<lambda>backward.
             if backward then
               bond_loop L G tree rest
                 (st1\<lparr>source_edges := source_edges st1 @ [(y_bid, x_bid)],
                      target_edges := target_edges st1 @
                        [(end_idx + n_nodes st1, begin_idx + n_nodes st1)]\<rparr>)
             else bond_loop L G tree rest st1))
         else bond_loop L G tree rest st1)))"

text \<open>Lines 321 to 339: the candidate molecules of one node.\<close>

fun mol_loop ::
  "'g library \<Rightarrow> 'g \<Rightarrow> 'g mol_tree \<Rightarrow> rdmol list \<Rightarrow> cstate \<Rightarrow> error + cstate" where
  "mol_loop L G tree [] st = Inr st"
| "mol_loop L G tree (mol # rest) st =
     bind (bond_loop L G tree (List.enumerate 0 (GetBonds mol)) st) (\<lambda>st'.
     mol_loop L G tree rest (st'\<lparr>n_nodes := n_nodes st' + int (GetNumAtoms mol)\<rparr>))"

text \<open>
  Lines 317 to 341: the nodes of one tree. Line 341 extends \<open>cand_batch_idx\<close> by
  \<open>[i] * len(node['cands'])\<close>, with whatever \<open>i\<close> holds at that point.
\<close>

fun node_loop ::
  "'g library \<Rightarrow> 'g \<Rightarrow> 'g mol_tree \<Rightarrow> (int \<times> node) list \<Rightarrow> cstate \<Rightarrow> error + cstate" where
  "node_loop L G tree [] st = Inr st"
| "node_loop L G tree ((node_id, nd) # rest) st =
     (if is_leaf nd \<or> length (cands nd) = 1 then node_loop L G tree rest st
      else
        bind (mol_loop L G tree (cand_mols nd) st) (\<lambda>st'.
        node_loop L G tree rest
          (st'\<lparr>cand_idx_list := cand_idx_list st' @ replicate (length (cands nd)) (loop_i st')\<rparr>)))"

text \<open>Lines 316 to 341: \<open>for i, tree in enumerate(batch_trees)\<close>.\<close>

fun tree_loop ::
  "'g library \<Rightarrow> 'g \<Rightarrow> (nat \<times> 'g mol_tree) list \<Rightarrow> cstate \<Rightarrow> error + cstate" where
  "tree_loop L G [] st = Inr st"
| "tree_loop L G ((j, tree) # rest) st =
     bind (node_loop L G tree (nodes_dict tree) (st\<lparr>loop_i := int j\<rparr>)) (tree_loop L G rest)"

text \<open>
  The state before line 316. \<open>i\<close> is not bound yet; the first statement that reads it
  comes after the loop header has bound it, so its value here is never read.
\<close>

definition cstate0 :: cstate where
  "cstate0 = \<lparr>loop_i = 0, n_nodes = 0, cand_idx_list = [], source_edges = [], target_edges = []\<rparr>"

text \<open>
  \<open>list(itertools.chain.from_iterable(xss))\<close>; iterating over \<open>None\<close> raises \<open>TypeError\<close>.
\<close>

fun chain :: "'a list option list \<Rightarrow> error + 'a list" where
  "chain [] = Inr []"
| "chain (None # rest) = Inl TypeError"
| "chain (Some xs # rest) = bind (chain rest) (\<lambda>ys. Inr (xs @ ys))"

text \<open>\<open>xs.index(x)\<close>: the first position of \<open>x\<close>, \<open>ValueError\<close> when there is none.\<close>

fun list_index :: "'a list \<Rightarrow> 'a \<Rightarrow> error + nat" where
  "list_index [] x = Inl ValueError"
| "list_index (y # ys) x =
     (if y = x then Inr 0 else bind (list_index ys x) (\<lambda>p. Inr (Suc p)))"

text \<open>
  Lines 360 to 369. \<open>cands\<close> is the tree's own list, so the append of line 367 changes
  the tree; \<open>done_trees\<close> collects the trees as the loop leaves them.
\<close>

record 'g sstate =
  done_trees :: "'g mol_tree list"
  stereo_idx_list :: "int list"
  labels_list :: "(int \<times> int) list"

fun stereo_batch_loop ::
  "(nat \<times> 'g mol_tree) list \<Rightarrow> 'g sstate \<Rightarrow> error option \<times> 'g sstate" where
  "stereo_batch_loop [] st = (None, st)"
| "stereo_batch_loop ((j, tree) # rest) st =
     (if length (stereo_cands tree) = 1
      then stereo_batch_loop rest (st\<lparr>done_trees := done_trees st @ [tree]\<rparr>)
      else
        (let cs = (if Str (smiles3D tree) \<notin> set (stereo_cands tree)
                   then stereo_cands tree @ [Str (smiles3D tree)] else stereo_cands tree);
             tree' = tree\<lparr>stereo_cands := cs\<rparr>
         in case list_index cs (Str (smiles3D tree)) of
              Inl e \<Rightarrow> (Some e, st\<lparr>done_trees := done_trees st @ tree' # map snd rest\<rparr>)
            | Inr p \<Rightarrow>
                stereo_batch_loop rest
                  (st\<lparr>done_trees := done_trees st @ [tree'],
                      stereo_idx_list := stereo_idx_list st @ replicate (length cs) (int j),
                      labels_list := labels_list st @ [(int p, int (length cs))]\<rparr>)))"

text \<open>
  Lines 304 to 378, the training part of \<open>__call__\<close>. The second component of the result
  is the state of the input trees when the call ends, also when it ends in an exception.
\<close>

definition collate_train ::
  "'g library \<Rightarrow> 'g mol_tree list \<Rightarrow> 'g \<Rightarrow> 'g \<Rightarrow> 'g list option list \<Rightarrow> 'g list option list \<Rightarrow>
   (error + 'g batch) \<times> 'g mol_tree list" where
  "collate_train L ts G MG cgss sgss =
     (let ts1 = set_idx_trees ts 0 in
      case tree_loop L G (List.enumerate 0 ts1) cstate0 of
        Inl e \<Rightarrow> (Inl e, ts1)
      | Inr st \<Rightarrow>
          (case bind (chain cgss) (\<lambda>cgs. bind (dgl_batch L (map Some cgs)) (\<lambda>CG.
                bind (chain sgss) (\<lambda>sgs. bind (dgl_batch L (map Some sgs)) (\<lambda>SG.
                Inr (CG, SG))))) of
             Inl e \<Rightarrow> (Inl e, ts1)
           | Inr (CG, SG) \<Rightarrow>
               (let src = (if length (source_edges st) = 0 then to_int (zeros [0, 2])
                           else IntTensor (source_edges st));
                    tgt = (if length (source_edges st) = 0 then to_int (zeros [0, 2])
                           else IntTensor (target_edges st));
                    cbi = (if length (cand_idx_list st) = 0 then to_long (zeros [0])
                           else LongTensor (cand_idx_list st))
                in case stereo_batch_loop (List.enumerate 0 ts1)
                          \<lparr>done_trees = [], stereo_idx_list = [], labels_list = []\<rparr> of
                     (Some e, sst) \<Rightarrow> (Inl e, done_trees sst)
                   | (None, sst) \<Rightarrow>
                       (Inr (Train_batch
                          \<lparr>batch_trees = done_trees sst,
                           batch_tree_graphs = G,
                           batch_mol_graphs = MG,
                           cand_batch_idx = cbi,
                           batch_cand_graphs = CG,
                           tree_mess_source_edges = src,
                           tree_mess_target_edges = tgt,
                           stereo_cand_batch_idx =
                             (if length (stereo_idx_list sst) = 0 then to_long (zeros [0])
                              else LongTensor (stereo_idx_list sst)),
                           stereo_cand_labels = labels_list sst,
                           batch_stereo_cand_graphs = SG\<rparr>),
                        done_trees sst))))"

text \<open>\<open>__call__\<close> of a collator built with \<open>training = training_flag\<close>.\<close>

definition collate ::
  "'g library \<Rightarrow> bool \<Rightarrow> 'g item list \<Rightarrow> (error + 'g batch) \<times> 'g mol_tree list" where
  "collate L training_flag batch =
     (if training_flag then
        (case bind (unzip_train batch) (\<lambda>(ts, mgs, cgss, sgss).
              bind (dgl_batch L (map (\<lambda>tree. Some (graph tree)) ts)) (\<lambda>G.
              bind (dgl_batch L mgs) (\<lambda>MG. Inr (ts, G, MG, cgss, sgss)))) of
           Inl e \<Rightarrow> (Inl e, map item_tree batch)
         | Inr (ts, G, MG, cgss, sgss) \<Rightarrow> collate_train L ts G MG cgss sgss)
      else
        (bind (unzip_eval batch) (\<lambda>(ts, mgs).
         bind (dgl_batch L (map (\<lambda>tree. Some (graph tree)) ts)) (\<lambda>G.
         bind (dgl_batch L mgs) (\<lambda>MG. Inr (Eval_batch ts G MG)))),
         map item_tree batch))"

text \<open>
  The lists that lines 311 to 341 have gathered when line 343 is reached, and the list
  \<open>stereo_cand_batch_idx\<close> that lines 360 to 369 have gathered when line 371 is reached.
\<close>

definition gathered :: "'g library \<Rightarrow> 'g item list \<Rightarrow> error + cstate" where
  "gathered L batch =
     bind (unzip_train batch) (\<lambda>(ts, mgs, cgss, sgss).
     bind (dgl_batch L (map (\<lambda>tree. Some (graph tree)) ts)) (\<lambda>G.
     tree_loop L G (List.enumerate 0 (set_idx_trees ts 0)) cstate0))"

definition gathered_stereo :: "'g item list \<Rightarrow> int list" where
  "gathered_stereo batch =
     stereo_idx_list (snd (stereo_batch_loop
       (List.enumerate 0 (set_idx_trees (map item_tree batch) 0))
       \<lparr>done_trees = [], stereo_idx_list = [], labels_list = []\<rparr>))"

text \<open>
  What lines 363 to 367 do to one tree, and the number of nodes of the trees that stand
  before position \<open>j\<close> of a batch: the value of the counter \<open>tot\<close> of line 305 when the
  loop reaches the tree at position \<open>j\<close>.
\<close>

definition append_smiles3D :: "'g mol_tree \<Rightarrow> 'g mol_tree" where
  "append_smiles3D tree =
     (if length (stereo_cands tree) = 1 then tree
      else if Str (smiles3D tree) \<notin> set (stereo_cands tree)
      then tree\<lparr>stereo_cands := stereo_cands tree @ [Str (smiles3D tree)]\<rparr>
      else tree)"

definition node_offset :: "'g item list \<Rightarrow> nat \<Rightarrow> nat" where
  "node_offset batch j = sum_list (map (\<lambda>it. length (nodes_dict (item_tree it))) (take j batch))"

subsection \<open>A small library and a data file of three lines, to run the definitions on\<close>

text \<open>
  A graph is a number of nodes and a list of edges. Batching renumbers the nodes of each
  graph after those of the graphs before it, and refuses \<open>None\<close>. The featuriser accepts
  every argument.
\<close>

type_synonym demo_graph = "nat \<times> (int \<times> int) list"

fun demo_batch :: "demo_graph option list \<Rightarrow> demo_graph \<Rightarrow> error + demo_graph" where
  "demo_batch [] acc = Inr acc"
| "demo_batch (None # rest) acc = Inl TypeError"
| "demo_batch (Some (n, es) # rest) (m, acc) =
     demo_batch rest (m + n, acc @ map (\<lambda>(u, v). (u + int m, v + int m)) es)"

definition demo_mol :: rdmol where
  "demo_mol =
     \<lparr>GetBonds = [\<lparr>GetBeginAtom = \<lparr>GetIdx = 0, GetAtomMapNum = 1\<rparr>,
                    GetEndAtom = \<lparr>GetIdx = 1, GetAtomMapNum = 2\<rparr>\<rparr>],
      GetNumAtoms = 2\<rparr>"

definition demo_leaf :: "string \<Rightarrow> node" where
  "demo_leaf s =
     \<lparr>label = s, cands = [s], cand_mols = [demo_mol], label_mol = demo_mol, smiles = s,
      is_leaf = True, idx = None\<rparr>"

definition demo_inner :: node where
  "demo_inner =
     \<lparr>label = ''C1=CC=CC=C1'', cands = [''C1=CC=CC=C1'', ''C1=CC=C[CH2]C1''],
      cand_mols = [demo_mol, demo_mol], label_mol = demo_mol, smiles = ''C1=CC=CC=C1'',
      is_leaf = False, idx = None\<rparr>"

definition tree_A :: "demo_graph mol_tree" where
  "tree_A =
     \<lparr>smiles3D = ''CCO'', stereo_cands = [Str ''CCO''],
      nodes_dict = [(0, demo_leaf ''CC''), (1, demo_leaf ''CO'')],
      graph = (2, [(0, 1), (1, 0)])\<rparr>"

definition tree_B :: "demo_graph mol_tree" where
  "tree_B =
     \<lparr>smiles3D = ''C[C@H](N)c1ccccc1'',
      stereo_cands = [Str ''C[C@@H](N)c1ccccc1'', Str ''CC(N)c1ccccc1''],
      nodes_dict = [(0, demo_leaf ''CC''), (1, demo_inner), (2, demo_leaf ''CN'')],
      graph = (3, [(0, 1), (1, 0), (1, 2), (2, 1)])\<rparr>"

definition demo_lib :: "demo_graph library" where
  "demo_lib =
     \<lparr>MolTree = (\<lambda>smi. if smi = ''CCO'' then Inr tree_A
                        else if smi = ''C[C@H](N)c1ccccc1'' then Inr tree_B
                        else Inl (LibraryError ''parse'')),
      recover = Inr,
      assemble = Inr,
      set_wid = (\<lambda>g wid. Inr g),
      get_mol = (\<lambda>smi. Inr (Mol demo_mol)),
      mol_to_bigraph = (\<lambda>fz x. Inr (2, [(0, 1), (1, 0)])),
      copy_src = Inr,
      dgl_batch = (\<lambda>gs. demo_batch gs (0, [])),
      has_edges_between = (\<lambda>G u v. Inr ((u, v) \<in> set (snd G)))\<rparr>"

definition demo_vocab :: "string \<Rightarrow> error + int" where
  "demo_vocab s =
     (if s = ''CC'' then Inr 0 else if s = ''CO'' then Inr 1 else if s = ''CN'' then Inr 2
      else if s = ''C1=CC=CC=C1'' then Inr 3 else Inl KeyError)"

definition demo_lines :: "string list" where
  "demo_lines =
     [''CCO'' @ [CHR 0x0A], ''  C[C@H](N)c1ccccc1 amine'' @ [CHR 0x0D, CHR 0x0A],
      ''C(C'' @ [CHR 0x0A]]"

definition demo_data :: "string list" where
  "demo_data = [''CCO'', ''C[C@H](N)c1ccccc1'', ''C(C'']"

definition demo_dataset :: "bool \<Rightarrow> bool \<Rightarrow> demo_graph dataset" where
  "demo_dataset cache_flag training_flag =
     \<lparr>data = demo_data, vocab = demo_vocab, cache = cache_flag,
      trees = (if cache_flag then [None, None, None] else []),
      mol_graphs = (if cache_flag then [None, None, None] else []),
      cand_graphs = (if cache_flag then [None, None, None] else []),
      stereo_cand_graphs = (if cache_flag then [None, None, None] else []),
      training = training_flag\<rparr>"

definition demo_items :: "demo_graph item list" where
  "demo_items =
     [Tuple4 tree_A (Some (3, [(0, 1), (1, 0), (1, 2), (2, 1)])) (Some []) (Some []),
      Tuple4 tree_B (Some (9, [(0, 1), (1, 0)]))
        (Some [(2, [(0, 1), (1, 0)]), (2, [(0, 1), (1, 0)])])
        (Some [(9, [(0, 1), (1, 0)]), (9, [(0, 1), (1, 0)])])]"

text \<open>
  Two variants of the library. In the first, batching raises on the empty list, as
  \<open>dgl.batch\<close> does ("the input list of graphs cannot be empty"). In the second, the tree
  constructor accepts every string, \<open>get_mol\<close> returns \<open>None\<close> for the string that does
  not parse, and the graph constructor raises when it is handed \<open>None\<close>: a malformed
  SMILES string that is only found out at lines 183 to 187.
\<close>

definition strict_lib :: "demo_graph library" where
  "strict_lib =
     demo_lib\<lparr>dgl_batch :=
       (\<lambda>gs. if gs = [] then Inl (LibraryError ''empty list of graphs'')
             else demo_batch gs (0, []))\<rparr>"

definition late_lib :: "demo_graph library" where
  "late_lib =
     demo_lib\<lparr>MolTree := (\<lambda>smi. if smi = ''C[C@H](N)c1ccccc1'' then Inr tree_B else Inr tree_A),
              get_mol := (\<lambda>smi. if smi = ''C(C'' then Inr PyNone else Inr (Mol demo_mol)),
              mol_to_bigraph :=
                (\<lambda>fz x. if x = PyNone then Inl (LibraryError ''NoneType'')
                        else Inr (2, [(0, 1), (1, 0)]))\<rparr>"

section \<open>Properties\<close>

subsection \<open>Exceptions and list comprehensions\<close>

lemma bind_simps [simp]: "bind (Inl e) f = Inl e" "bind (Inr x) f = f x"
  by (simp_all add: bind_def)

lemma bind_Inr_iff: "bind m f = Inr y \<longleftrightarrow> (\<exists>x. m = Inr x \<and> f x = Inr y)"
  by (cases m) simp_all

lemma bind_Inl_iff: "bind m f = Inl e \<longleftrightarrow> m = Inl e \<or> (\<exists>x. m = Inr x \<and> f x = Inl e)"
  by (cases m) simp_all

lemma mapM_Inr_iff: "mapM f xs = Inr ys \<longleftrightarrow> list_all2 (\<lambda>x y. f x = Inr y) xs ys"
proof (induction xs arbitrary: ys)
  case Nil
  show ?case by auto
next
  case (Cons x xs)
  show ?case
    by (cases ys) (auto simp: bind_Inr_iff Cons.IH)
qed

lemma mapM_Inl_elem: "mapM f xs = Inl e \<Longrightarrow> \<exists>x\<in>set xs. f x = Inl e"
  by (induction xs) (auto simp: bind_Inl_iff)

lemma mapM_fails: "x \<in> set xs \<Longrightarrow> f x = Inl e \<Longrightarrow> \<exists>e'. mapM f xs = Inl e'"
proof (induction xs)
  case Nil
  then show ?case by simp
next
  case (Cons y ys)
  show ?case
  proof (cases "f y")
    case (Inl e')
    then show ?thesis by simp
  next
    case (Inr v)
    with Cons obtain e' where "mapM f ys = Inl e'" by auto
    with Inr show ?thesis by simp
  qed
qed

subsection \<open>Reading the data file\<close>

lemma split_Nil_iff: "split s = [] \<longleftrightarrow> (\<forall>c\<in>set s. isspace c)"
  by (subst split.simps) (simp add: Let_def dropWhile_eq_Nil_conv)

lemma split_Cons: "split s = tok # rest \<Longrightarrow> tok = first_token s"
  by (subst (asm) split.simps) (simp add: Let_def first_token_def split: if_splits)

lemma strip_chars_isspace: "List.member [CHR 0x0D, CHR 0x0A, CHR 0x20] c \<Longrightarrow> isspace c"
  by (auto simp: isspace_def)

lemma set_strip_subset: "set (strip chars s) \<subseteq> set s"
proof
  fix c
  assume "c \<in> set (strip chars s)"
  then have "c \<in> set (dropWhile (List.member chars) s)"
    unfolding strip_def by (auto dest: set_dropWhileD)
  then show "c \<in> set s"
    by (rule set_dropWhileD)
qed

lemma set_strip_decomp: "set s \<subseteq> set (strip chars s) \<union> {c. List.member chars c}"
proof -
  let ?P = "List.member chars"
  let ?d = "dropWhile ?P s"
  have "set s = set (takeWhile ?P s) \<union> set ?d"
    by (metis takeWhile_dropWhile_id set_append)
  moreover have "set ?d = set (takeWhile ?P (rev ?d)) \<union> set (dropWhile ?P (rev ?d))"
    by (metis takeWhile_dropWhile_id set_append set_rev)
  moreover have "set (takeWhile ?P xs) \<subseteq> {c. ?P c}" for xs
    by (auto dest: set_takeWhileD)
  ultimately show ?thesis
    unfolding strip_def by auto
qed

lemma parse_line_Inl_iff:
  "parse_line l = Inl e \<longleftrightarrow> (\<forall>c\<in>set l. isspace c) \<and> e = IndexError"
proof -
  let ?s = "strip [CHR 0x0D, CHR 0x0A, CHR 0x20] l"
  have "(\<forall>c\<in>set ?s. isspace c) \<longleftrightarrow> (\<forall>c\<in>set l. isspace c)"
    using set_strip_subset [of "[CHR 0x0D, CHR 0x0A, CHR 0x20]" l]
      set_strip_decomp [of l "[CHR 0x0D, CHR 0x0A, CHR 0x20]"] strip_chars_isspace
    by blast
  then show ?thesis
    unfolding parse_line_def first_def
    by (auto simp: split_Nil_iff [symmetric] split: list.splits)
qed

lemma parse_line_Inr:
  "parse_line l = Inr tok \<Longrightarrow> tok = first_token (strip [CHR 0x0D, CHR 0x0A, CHR 0x20] l)"
  unfolding parse_line_def first_def
  by (auto split: list.splits dest: split_Cons)

lemma init_Inr_data: "init lines voc cache_flag training_flag = Inr ds \<Longrightarrow> mapM parse_line lines = Inr (data ds)"
  by (auto simp: init_def bind_Inr_iff)

lemma demo_lines_parsed: "mapM parse_line demo_lines = Inr demo_data"
  by code_simp

lemma demo_init:
  "init demo_lines demo_vocab cache_flag training_flag = Inr (demo_dataset cache_flag training_flag)"
  by (simp add: init_def demo_lines_parsed demo_dataset_def) (simp add: demo_data_def)

text \<open>
  C6. When \<open>__init__\<close> returns, the dataset has one datapoint per line of the file, and
  the datapoint of line \<open>k\<close> is the first whitespace-separated token of that line with
  carriage returns, line feeds and spaces stripped from both ends.
\<close>

theorem init_one_smiles_per_line:
  assumes "init lines voc cache_flag training_flag = Inr ds"
  shows "len ds = length lines \<and>
         (\<forall>k<length lines.
            data ds ! k = first_token (strip [CHR 0x0D, CHR 0x0A, CHR 0x20] (lines ! k)))"
proof -
  from assms have "list_all2 (\<lambda>l tok. parse_line l = Inr tok) lines (data ds)"
    by (simp add: init_Inr_data mapM_Inr_iff [symmetric])
  then have "length lines = length (data ds)"
    and "\<forall>k<length lines. parse_line (lines ! k) = Inr (data ds ! k)"
    by (simp_all add: list_all2_conv_all_nth)
  then show ?thesis
    by (auto simp: len_def dest: parse_line_Inr)
qed

theorem init_one_smiles_per_line_witness:
  "init demo_lines demo_vocab True True = Inr (demo_dataset True True) \<and>
   len (demo_dataset True True) = 3 \<and>
   data (demo_dataset True True) ! 1 = ''C[C@H](N)c1ccccc1'' \<and>
   first_token (strip [CHR 0x0D, CHR 0x0A, CHR 0x20] (demo_lines ! 1)) = ''C[C@H](N)c1ccccc1''"
proof -
  have h: "init demo_lines demo_vocab True True = Inr (demo_dataset True True)"
    by (rule demo_init)
  have d: "data (demo_dataset True True) ! 1 = ''C[C@H](N)c1ccccc1''"
    by (simp add: demo_dataset_def demo_data_def)
  have n: "length demo_lines = 3"
    by (simp add: demo_lines_def)
  from init_one_smiles_per_line [OF h] n d
  have "len (demo_dataset True True) = 3"
    and "first_token (strip [CHR 0x0D, CHR 0x0A, CHR 0x20] (demo_lines ! 1)) = ''C[C@H](N)c1ccccc1''"
    by auto
  with h d show ?thesis by simp
qed

text \<open>
  C10. If a line of the file is empty or holds nothing but whitespace, \<open>__init__\<close>
  raises \<open>IndexError\<close>.
\<close>

theorem init_blank_line_IndexError:
  assumes "\<exists>l\<in>set lines. \<forall>c\<in>set l. isspace c"
  shows "init lines voc cache_flag training_flag = Inl IndexError"
proof -
  from assms obtain l where l: "l \<in> set lines" "parse_line l = Inl IndexError"
    by (auto simp: parse_line_Inl_iff)
  from mapM_fails [of l lines parse_line IndexError] l
  obtain e where e: "mapM parse_line lines = Inl e" by auto
  from mapM_Inl_elem [OF e] obtain l' where "parse_line l' = Inl e" ..
  then have "e = IndexError"
    by (simp add: parse_line_Inl_iff)
  with e show ?thesis
    by (simp add: init_def)
qed

theorem init_blank_line_IndexError_witness:
  "list_ex (list_all isspace) [''CCO'' @ [CHR 0x0A], [CHR 0x20, CHR 0x09, CHR 0x0A]] \<and>
   init [''CCO'' @ [CHR 0x0A], [CHR 0x20, CHR 0x09, CHR 0x0A]] demo_vocab False True =
     (Inl IndexError :: error + demo_graph dataset)"
proof -
  have h: "\<exists>l\<in>set [''CCO'' @ [CHR 0x0A], [CHR 0x20, CHR 0x09, CHR 0x0A]]. \<forall>c\<in>set l. isspace c"
    by (simp add: isspace_def)
  have "list_ex (list_all isspace) [''CCO'' @ [CHR 0x0A], [CHR 0x20, CHR 0x09, CHR 0x0A]]"
    by (simp add: isspace_def)
  with init_blank_line_IndexError [OF h] show ?thesis by simp
qed

lemma init_fails_only_on_blank_line:
  assumes "init lines voc cache_flag training_flag = Inl e"
  shows "e = IndexError \<and> (\<exists>l\<in>set lines. \<forall>c\<in>set l. isspace c)"
proof -
  from assms have "mapM parse_line lines = Inl e"
    by (simp add: init_def bind_Inl_iff)
  from mapM_Inl_elem [OF this] obtain l where "l \<in> set lines" "parse_line l = Inl e"
    by blast
  then show ?thesis
    by (auto simp: parse_line_Inl_iff)
qed

subsection \<open>\<open>__getitem__\<close>\<close>


lemma py_index_Inr: "py_index n i = Inr k \<Longrightarrow> k < n"
  by (auto simp: py_index_def split: if_splits)

lemma py_index_update [simp]: "py_index (length xs) i = Inr k \<Longrightarrow> xs[k := v] ! k = v"
  by (simp add: py_index_Inr)

lemma py_get_Inr_iff: "py_get xs i = Inr x \<longleftrightarrow> (\<exists>k. py_index (length xs) i = Inr k \<and> x = xs ! k)"
  by (auto simp: py_get_def bind_Inr_iff)

lemma py_set_Inr_iff: "py_set xs i v = Inr ys \<longleftrightarrow> (\<exists>k. py_index (length xs) i = Inr k \<and> ys = xs[k := v])"
  by (auto simp: py_set_def bind_Inr_iff)

lemma py_get_Inl: "py_get xs i = Inl e \<longleftrightarrow> py_index (length xs) i = Inl e"
  by (auto simp: py_get_def bind_Inl_iff)

lemma fetch_Inr:
  assumes "fetch L ds i = (Inr (t, g), ds1)"
  shows "cache ds1 = cache ds \<and> training ds1 = training ds \<and> data ds1 = data ds \<and>
         vocab ds1 = vocab ds \<and> cand_graphs ds1 = cand_graphs ds \<and>
         stereo_cand_graphs ds1 = stereo_cand_graphs ds \<and>
         cached_tree ds1 i = (if cache ds then Inr (Some t) else Inr None)"
  using assms unfolding fetch_def cached_tree_def
  by (auto simp: py_get_Inr_iff py_set_Inr_iff bind_Inr_iff dest: py_index_Inr
      split: sum.splits option.splits if_splits prod.splits)

lemma fetch_Inl:
  assumes "fetch L ds i = (Inl e, ds1)"
  shows "cache ds1 = cache ds \<and> training ds1 = training ds \<and> data ds1 = data ds \<and>
         vocab ds1 = vocab ds \<and> cand_graphs ds1 = cand_graphs ds \<and>
         stereo_cand_graphs ds1 = stereo_cand_graphs ds"
  using assms unfolding fetch_def cached_tree_def
  by (auto simp: py_get_Inr_iff py_set_Inr_iff bind_Inr_iff dest: py_index_Inr
      split: sum.splits option.splits if_splits prod.splits)


lemma store_cands_frame:
  "store_cands ds i cgs scgs = (r, ds') \<Longrightarrow>
   cache ds' = cache ds \<and> training ds' = training ds \<and> data ds' = data ds \<and>
   vocab ds' = vocab ds \<and> trees ds' = trees ds \<and> mol_graphs ds' = mol_graphs ds"
  unfolding store_cands_def
  by (auto split: if_splits sum.splits)

lemma store_cands_no_cache: "\<not> cache ds \<Longrightarrow> store_cands ds i cgs scgs = (Inr (), ds)"
  by (simp add: store_cands_def)

text \<open>With a cache, the branch that builds the candidate graphs is never taken.\<close>

lemma getitem_cached_training:
  assumes "cache ds" "training ds" "getitem L ds i = Some (Inr item, ds')"
  shows "\<exists>t g cgs scgs. item = Tuple4 t g cgs scgs \<and>
           py_get (cand_graphs ds) i = Inr cgs \<and> py_get (stereo_cand_graphs ds) i = Inr scgs \<and>
           cand_graphs ds' = cand_graphs ds \<and> stereo_cand_graphs ds' = stereo_cand_graphs ds"
proof -
  obtain r ds1 where f: "fetch L ds i = (r, ds1)" by (cases "fetch L ds i")
  show ?thesis
  proof (cases r)
    case (Inl e)
    with f assms show ?thesis by (simp add: getitem_def)
  next
    case (Inr tg)
    obtain t g where tg: "tg = (t, g)" by (cases tg)
    from fetch_Inr [of L ds i t g ds1] f Inr tg assms
    have 1: "training ds1" "cached_tree ds1 i = Inr (Some t)"
      "cand_graphs ds1 = cand_graphs ds" "stereo_cand_graphs ds1 = stereo_cand_graphs ds"
      by simp_all
    from assms(3) f Inr tg 1 show ?thesis
      by (auto simp: getitem_def bind_Inr_iff)
  qed
qed


lemma getitem_state:
  assumes "getitem L ds i = Some (r, ds')"
  shows "\<exists>r1. fetch L ds i = (r1, ds')"
proof -
  obtain r1 ds1 where f: "fetch L ds i = (r1, ds1)" by (cases "fetch L ds i")
  show ?thesis
  proof (cases r1)
    case (Inl e)
    with f assms show ?thesis by (simp add: getitem_def)
  next
    case (Inr tg)
    obtain t g where tg: "tg = (t, g)" by (cases tg)
    from fetch_Inr [of L ds i t g ds1] f Inr tg
    have 1: "cache ds1 = cache ds" "cached_tree ds1 i = (if cache ds then Inr (Some t) else Inr None)"
      by simp_all
    show ?thesis
    proof (cases "cache ds")
      case True
      with assms f Inr tg 1 show ?thesis
        by (auto simp: getitem_def split: if_splits)
    next
      case False
      with 1 have "store_cands ds1 i cgs scgs = (Inr (), ds1)" for cgs scgs
        by (simp add: store_cands_no_cache)
      with assms f Inr tg 1 False show ?thesis
        by (auto simp: getitem_def split: if_splits sum.splits option.splits prod.splits)
    qed
  qed
qed

lemma init_inv: "init lines voc cache_flag training_flag = Inr ds \<Longrightarrow> dataset_inv L ds"
  by (cases cache_flag) (auto simp: init_def bind_Inr_iff dataset_inv_def)

lemma fetch_inv:
  assumes "fetch L ds i = (r, ds1)" "dataset_inv L ds"
  shows "dataset_inv L ds1"
proof (cases "cached_tree ds i")
  case (Inl e)
  with assms show ?thesis by (simp add: fetch_def)
next
  case (Inr ot)
  show ?thesis
  proof (cases ot)
    case (Some t)
    with Inr assms show ?thesis by (auto simp: fetch_def)
  next
    case None
    show ?thesis
    proof (cases "bind (py_get (data ds) i) (construct L (vocab ds))")
      case (Inl e)
      with None Inr assms show ?thesis by (simp add: fetch_def)
    next
      case c: (Inr tg)
      obtain t g where tg: "tg = (t, g)" by (cases tg)
      from c tg obtain k where k: "py_index (length (data ds)) i = Inr k"
        "construct L (vocab ds) (data ds ! k) = Inr (t, g)"
        by (auto simp: bind_Inr_iff py_get_Inr_iff)
      show ?thesis
      proof (cases "cache ds")
        case False
        with None Inr c tg assms show ?thesis by (simp add: fetch_def)
      next
        case True
        with assms(2) have len: "length (trees ds) = length (data ds)"
          "length (mol_graphs ds) = length (data ds)"
          by (simp_all add: dataset_inv_def)
        with k True None Inr c tg assms(1)
        have ds1: "ds1 = ds\<lparr>trees := (trees ds)[k := Some t], mol_graphs := (mol_graphs ds)[k := Some g]\<rparr>"
          by (simp add: fetch_def py_set_def)
        have "\<exists>r. construct L (vocab ds) (data ds ! j) = Inr r"
          if "j < length (trees ds)" "(trees ds)[k := Some t] ! j \<noteq> None" for j
        proof (cases "j = k")
          case True
          with that k(2) show ?thesis by auto
        next
          case False
          with that assms(2) show ?thesis
            unfolding dataset_inv_def by auto
        qed
        with assms(2) len show ?thesis
          unfolding ds1 dataset_inv_def by simp

      qed
    qed
  qed
qed

lemma getitem_inv: "getitem L ds i = Some (r, ds') \<Longrightarrow> dataset_inv L ds \<Longrightarrow> dataset_inv L ds'"
  using getitem_state fetch_inv by blast

lemma reachable_inv: "reachable L ds \<Longrightarrow> dataset_inv L ds"
  by (induction rule: reachable.induct) (auto intro: init_inv getitem_inv)

lemma construct_MolTree_fails: "MolTree L smi = Inl e \<Longrightarrow> construct L voc smi = Inl e"
  by (simp add: construct_def)

text \<open>The shape of what an access returns follows the \<open>training\<close> flag.\<close>

lemma getitem_eval_returns_pair:
  assumes "\<not> training ds" "getitem L ds i = Some (Inr item, ds')"
  shows "\<exists>t g. item = Tuple2 t g"
proof -
  obtain r ds1 where f: "fetch L ds i = (r, ds1)" by (cases "fetch L ds i")
  show ?thesis
  proof (cases r)
    case (Inl e)
    with f assms show ?thesis by (simp add: getitem_def)
  next
    case (Inr tg)
    obtain t g where tg: "tg = (t, g)" by (cases tg)
    from fetch_Inr [of L ds i t g ds1] f Inr tg assms(1) have "\<not> training ds1" by simp
    with assms(2) f Inr tg show ?thesis by (auto simp: getitem_def)
  qed
qed

lemma getitem_training_returns_4tuple:
  assumes "training ds" "getitem L ds i = Some (Inr item, ds')"
  shows "\<exists>t g cgs scgs. item = Tuple4 t g cgs scgs"
proof -
  obtain r ds1 where f: "fetch L ds i = (r, ds1)" by (cases "fetch L ds i")
  show ?thesis
  proof (cases r)
    case (Inl e)
    with f assms show ?thesis by (simp add: getitem_def)
  next
    case (Inr tg)
    obtain t g where tg: "tg = (t, g)" by (cases tg)
    from fetch_Inr [of L ds i t g ds1] f Inr tg assms(1) have "training ds1" by simp
    with assms(2) f Inr tg show ?thesis
      by (auto simp: getitem_def bind_Inr_iff split: sum.splits option.splits prod.splits)
  qed
qed

text \<open>
  Every call of lines 168 to 190 that can raise on a malformed SMILES string: the tree
  constructor, \<open>recover\<close>, \<open>assemble\<close>, the vocabulary, \<open>get_mol\<close> and the graph
  constructor. Whichever of them raises first, construction ends with its exception.
\<close>

lemma construct_get_mol_fails:
  assumes "MolTree L smi = Inr t0" "recover L t0 = Inr t1" "assemble L t1 = Inr t2"
    and "mapM (\<lambda>(node_id, nd). voc (smiles nd))
           (map (\<lambda>(node_id, nd). (node_id, add_label nd)) (nodes_dict t2)) = Inr wid"
    and "set_wid L (graph t2) wid = Inr g"
    and "get_mol L smi = Inl e"
  shows "construct L voc smi = Inl e"
  using assms by (simp add: construct_def Let_def)

lemma construct_featurize_fails:
  assumes "MolTree L smi = Inr t0" "recover L t0 = Inr t1" "assemble L t1 = Inr t2"
    and "mapM (\<lambda>(node_id, nd). voc (smiles nd))
           (map (\<lambda>(node_id, nd). (node_id, add_label nd)) (nodes_dict t2)) = Inr wid"
    and "set_wid L (graph t2) wid = Inr g"
    and "get_mol L smi = Inr mol" "featurize L Enc mol = Inl e"
  shows "construct L voc smi = Inl e"
  using assms by (simp add: construct_def Let_def)

lemma construct_Inl_cases:
  assumes "construct L voc smi = Inl e"
  shows "MolTree L smi = Inl e \<or> (\<exists>t0. recover L t0 = Inl e) \<or> (\<exists>t1. assemble L t1 = Inl e) \<or>
         (\<exists>s. voc s = Inl e) \<or> (\<exists>g wid. set_wid L g wid = Inl e) \<or> get_mol L smi = Inl e \<or>
         (\<exists>mol. mol_to_bigraph L Enc mol = Inl e) \<or> (\<exists>g. copy_src L g = Inl e)"
proof -
  have m: "\<exists>s. voc s = Inl e" if "mapM (\<lambda>(node_id, nd). voc (smiles nd)) xs = Inl e" for xs
    using mapM_Inl_elem [OF that] by (auto split: prod.splits)
  from assms show ?thesis
    unfolding construct_def Let_def featurize_def bind_Inl_iff
    using m by blast
qed

text \<open>
  C7. In every dataset a program can hold, when the construction of lines 168 to 190
  raises on the SMILES string of an index (in the tree constructor, in \<open>get_mol\<close>, in the
  graph constructor or in any other call of these lines), \<open>__getitem__\<close> ends with that
  very exception, returns no datapoint and leaves the dataset as it was.
\<close>

theorem getitem_propagates_parse_failure:
  assumes "reachable L ds" "py_get (data ds) i = Inr smi" "construct L (vocab ds) smi = Inl e"
  shows "getitem L ds i = Some (Inl e, ds)"
proof -
  from assms(2) obtain k where k: "py_index (length (data ds)) i = Inr k" "smi = data ds ! k"
    by (auto simp: py_get_Inr_iff)
  note c = assms(3)
  from reachable_inv [OF assms(1)] have inv: "dataset_inv L ds" .
  have "cached_tree ds i = Inr None"
  proof (cases "cache ds")
    case False
    then show ?thesis by (simp add: cached_tree_def)
  next
    case True
    with inv have len: "length (trees ds) = length (data ds)"
      by (simp add: dataset_inv_def)
    have "trees ds ! k = None"
    proof (cases "trees ds ! k")
      case (Some t)
      with inv len py_index_Inr [OF k(1)] obtain r where "construct L (vocab ds) (data ds ! k) = Inr r"
        unfolding dataset_inv_def by force
      with c k(2) show ?thesis by simp
    qed simp
    with True len k show ?thesis
      by (simp add: cached_tree_def py_get_def)
  qed
  with c assms(2) show ?thesis
    by (simp add: getitem_def fetch_def)
qed

text \<open>
  C2. The code does not do what the claim says. With \<open>cache\<close> and \<open>training\<close> set, line 193
  has stored the tree before line 199 asks whether a tree is stored, so the candidate
  graphs are never built: every access that returns gives \<open>None\<close> for the candidate
  graphs and for the stereo candidate graphs, and both cache lists hold \<open>None\<close> only.
\<close>

theorem getitem_cache_returns_None:
  assumes "reachable L ds" "cache ds" "training ds" "getitem L ds i = Some (Inr item, ds')"
  shows "(\<exists>t g. item = Tuple4 t g None None) \<and>
         list_all (\<lambda>c. c = None) (cand_graphs ds') \<and>
         list_all (\<lambda>c. c = None) (stereo_cand_graphs ds')"
proof -
  from reachable_inv [OF assms(1)]
  have inv: "\<forall>c\<in>set (cand_graphs ds). c = None" "\<forall>c\<in>set (stereo_cand_graphs ds). c = None"
    by (simp_all add: dataset_inv_def)
  from getitem_cached_training [OF assms(2-4)] obtain t g cgs scgs where
    r: "item = Tuple4 t g cgs scgs" "py_get (cand_graphs ds) i = Inr cgs"
       "py_get (stereo_cand_graphs ds) i = Inr scgs"
       "cand_graphs ds' = cand_graphs ds" "stereo_cand_graphs ds' = stereo_cand_graphs ds"
    by blast
  from r(2) inv(1) have "cgs = None"
    by (auto simp: py_get_Inr_iff dest!: py_index_Inr)
  moreover from r(3) inv(2) have "scgs = None"
    by (auto simp: py_get_Inr_iff dest!: py_index_Inr)
  ultimately show ?thesis
    using r inv by (simp add: list_all_iff)
qed

lemma stereo_loop_raises:
  assumes "stereo_loop L k cs = Some y" "k < length cs"
  shows "\<exists>e. y = Inl e"
proof -
  have "k < length cs \<longrightarrow> (\<exists>e. y = Inl e)"
  proof (rule stereo_loop.raw_induct
      [where P = "\<lambda>L k cs y. k < length cs \<longrightarrow> (\<exists>e. y = Inl e)", OF _ assms(1)])
    fix loop :: "'a library \<Rightarrow> nat \<Rightarrow> 'a pyobj list \<Rightarrow> (error + 'a pyobj list) option"
      and L k cs y
    assume IH: "\<And>L k cs y. loop L k cs = Some y \<Longrightarrow> k < length cs \<longrightarrow> (\<exists>e. y = Inl e)"
      and step: "(if k < length cs
           then case featurize L Enc (cs ! k) of Inl e \<Rightarrow> Some (Inl e)
                | Inr cg \<Rightarrow> loop L (Suc k) (cs @ [Graph cg])
           else Some (Inr cs)) = Some y"
    show "k < length cs \<longrightarrow> (\<exists>e. y = Inl e)"
    proof
      assume k: "k < length cs"
      show "\<exists>e. y = Inl e"
      proof (cases "featurize L Enc (cs ! k)")
        case (Inl e)
        with step k show ?thesis by auto
      next
        case (Inr cg)
        with step k have "loop L (Suc k) (cs @ [Graph cg]) = Some y" by simp
        from IH [OF this] k show ?thesis by simp
      qed
    qed
  qed
  with assms(2) show ?thesis by simp
qed

lemma stereo_loop_diverges:
  assumes "\<And>x. \<exists>g. featurize L Enc x = Inr g" "k < length cs"
  shows "stereo_loop L k cs = None"
proof (cases "stereo_loop L k cs")
  case (Some y)
  have "(\<forall>x. \<exists>g. featurize L Enc x = Inr g) \<and> k < length cs \<longrightarrow> False"
  proof (rule stereo_loop.raw_induct
      [where P = "\<lambda>L k cs y. (\<forall>x. \<exists>g. featurize L Enc x = Inr g) \<and> k < length cs \<longrightarrow> False", OF _ Some])
    fix loop :: "'a library \<Rightarrow> nat \<Rightarrow> 'a pyobj list \<Rightarrow> (error + 'a pyobj list) option"
      and L k cs y
    assume IH: "\<And>L k cs y. loop L k cs = Some y \<Longrightarrow>
                 (\<forall>x. \<exists>g. featurize L Enc x = Inr g) \<and> k < length cs \<longrightarrow> False"
      and step: "(if k < length cs
           then case featurize L Enc (cs ! k) of Inl e \<Rightarrow> Some (Inl e)
                | Inr cg \<Rightarrow> loop L (Suc k) (cs @ [Graph cg])
           else Some (Inr cs)) = Some y"
    show "(\<forall>x. \<exists>g. featurize L Enc x = Inr g) \<and> k < length cs \<longrightarrow> False"
    proof
      assume a: "(\<forall>x. \<exists>g. featurize L Enc x = Inr g) \<and> k < length cs"
      then obtain cg where cg: "featurize L Enc (cs ! k) = Inr cg" by blast
      with step a have "loop L (Suc k) (cs @ [Graph cg]) = Some y" by simp
      from IH [OF this] a show False by simp
    qed
  qed
  with assms show ?thesis by blast
qed simp

lemma stereo_never_returns:
  assumes "length (stereo_cands t) \<noteq> 1"
  shows "stereo L t \<noteq> Some (Inr r)"
proof
  assume r: "stereo L t = Some (Inr r)"
  let ?cs = "if Str (smiles3D t) \<notin> set (stereo_cands t)
             then stereo_cands t @ [Str (smiles3D t)] else stereo_cands t"
  have pos: "0 < length ?cs"
    by (cases "stereo_cands t") auto
  from r assms obtain cs where "stereo_loop L 0 ?cs = Some (Inr cs)"
    by (auto simp: stereo_def split: option.splits sum.splits)
  from stereo_loop_raises [OF this pos] show False by simp
qed

lemma stereo_diverges:
  assumes "\<And>x. \<exists>g. featurize L Enc x = Inr g" "length (stereo_cands t) \<noteq> 1"
  shows "stereo L t = None"
proof -
  let ?cs = "if Str (smiles3D t) \<notin> set (stereo_cands t)
             then stereo_cands t @ [Str (smiles3D t)] else stereo_cands t"
  have pos: "0 < length ?cs"
    by (cases "stereo_cands t") auto
  from stereo_loop_diverges [OF assms(1) pos] have "stereo_loop L 0 ?cs = None" .
  with assms(2) show ?thesis
    by (simp add: stereo_def)
qed

text \<open>
  C3. The code does not do what the claim says. Without a cache and in training mode,
  an access to a molecule with more than one stereo candidate never returns a datapoint,
  whatever the library does: the loop of lines 223 to 229 appends to the list it
  iterates, so the call raises inside the featuriser or runs forever.
\<close>

theorem getitem_stereo_never_returns:
  assumes "\<not> cache ds" "training ds" "py_get (data ds) i = Inr smi"
    "construct L (vocab ds) smi = Inr (t, g)" "1 < length (stereo_cands t)"
  shows "getitem L ds i \<noteq> Some (Inr item, ds')"
proof -
  from assms(1,3,4) have f: "fetch L ds i = (Inr (t, Some g), ds)"
    by (simp add: fetch_def cached_tree_def)
  from assms(5) have "stereo L t \<noteq> Some (Inr r)" for r
    by (intro stereo_never_returns) simp
  with f assms(1,2) show ?thesis
    by (auto simp: getitem_def cached_tree_def split: sum.splits option.splits)
qed

lemma demo_construct_A:
  "construct demo_lib demo_vocab ''CCO'' = Inr (tree_A, (2, [(0, 1), (1, 0)]))"
  by code_simp

lemma demo_construct_B:
  "construct demo_lib demo_vocab ''C[C@H](N)c1ccccc1'' = Inr (tree_B, (2, [(0, 1), (1, 0)]))"
  by code_simp

lemma demo_featurize: "\<exists>g. featurize demo_lib Enc x = Inr g"
  by (simp add: featurize_def demo_lib_def)

theorem getitem_stereo_never_returns_witness:
  "\<not> cache (demo_dataset False True) \<and> training (demo_dataset False True) \<and>
   py_get (data (demo_dataset False True)) 1 = Inr ''C[C@H](N)c1ccccc1'' \<and>
   construct demo_lib (vocab (demo_dataset False True)) ''C[C@H](N)c1ccccc1'' =
     Inr (tree_B, (2, [(0, 1), (1, 0)])) \<and>
   1 < length (stereo_cands tree_B) \<and>
   (\<forall>item ds'. getitem demo_lib (demo_dataset False True) 1 \<noteq> Some (Inr item, ds'))"
proof -
  have 1: "\<not> cache (demo_dataset False True)" and 2: "training (demo_dataset False True)"
    by (simp_all add: demo_dataset_def)
  have 3: "py_get (data (demo_dataset False True)) 1 = Inr ''C[C@H](N)c1ccccc1''"
    by (simp add: demo_dataset_def demo_data_def py_get_def py_index_def)
  have 4: "construct demo_lib (vocab (demo_dataset False True)) ''C[C@H](N)c1ccccc1'' =
     Inr (tree_B, (2, [(0, 1), (1, 0)]))"
    by (simp add: demo_dataset_def demo_construct_B)
  have 5: "1 < length (stereo_cands tree_B)"
    by (simp add: tree_B_def)
  from getitem_stereo_never_returns [OF 1 2 3 4 5] 1 2 3 4 5 show ?thesis
    by blast
qed

text \<open>
  C4. The code does not do what the claim says. With a featuriser that accepts every
  argument, the access to the second molecule of the data file (two stereo candidates)
  of a training dataset without cache does not return, so no 4-tuple is returned.
\<close>

theorem getitem_training_diverges:
  "getitem demo_lib (demo_dataset False True) (- 2) = None"
proof -
  have f: "fetch demo_lib (demo_dataset False True) (- 2) =
             (Inr (tree_B, Some (2, [(0, 1), (1, 0)])), demo_dataset False True)"
    by (simp add: fetch_def cached_tree_def py_get_def py_index_def demo_dataset_def
        demo_data_def demo_construct_B)
  have c: "\<exists>cgs. cand_nodes_loop demo_lib (nodes_dict tree_B) [] = Inr cgs"
    by (simp add: tree_B_def demo_leaf_def demo_inner_def featurize_def demo_lib_def)
  have s: "stereo demo_lib tree_B = None"
    by (rule stereo_diverges [OF demo_featurize]) (simp add: tree_B_def)
  from c obtain cgs where "cand_nodes_loop demo_lib (nodes_dict tree_B) [] = Inr cgs" ..
  with f s show ?thesis
    by (simp add: getitem_def cached_tree_def demo_dataset_def)
qed


lemma demo_reachable: "reachable demo_lib (demo_dataset cache_flag training_flag)"
  by (rule reachable.built [OF demo_init])

text \<open>
  The third line of the data file, \<open>C(C\<close>, with the library that finds the failure out
  only in the graph constructor of line 184, and with the one whose tree constructor
  raises at line 169.
\<close>

lemma late_construct:
  "construct late_lib demo_vocab ''C(C'' = Inl (LibraryError ''NoneType'')"
  by code_simp

theorem getitem_propagates_parse_failure_witness:
  "reachable late_lib (demo_dataset True True) \<and>
   py_get (data (demo_dataset True True)) 2 = Inr ''C(C'' \<and>
   MolTree late_lib ''C(C'' = Inr tree_A \<and>
   construct late_lib (vocab (demo_dataset True True)) ''C(C'' = Inl (LibraryError ''NoneType'') \<and>
   getitem late_lib (demo_dataset True True) 2 =
     Some (Inl (LibraryError ''NoneType''), demo_dataset True True) \<and>
   getitem demo_lib (demo_dataset True True) 2 =
     Some (Inl (LibraryError ''parse''), demo_dataset True True)"
proof -
  have 1: "reachable L (demo_dataset True True)" for L :: "demo_graph library"
    by (rule reachable.built [OF demo_init])
  have 2: "py_get (data (demo_dataset True True)) 2 = Inr ''C(C''"
    by (simp add: demo_dataset_def demo_data_def py_get_def py_index_def)
  have 3: "construct late_lib (vocab (demo_dataset True True)) ''C(C'' = Inl (LibraryError ''NoneType'')"
    by (simp add: demo_dataset_def late_construct)
  have 4: "MolTree late_lib ''C(C'' = Inr tree_A"
    by (simp add: late_lib_def)
  have 5: "construct demo_lib (vocab (demo_dataset True True)) ''C(C'' = Inl (LibraryError ''parse'')"
    by (rule construct_MolTree_fails) (simp add: demo_lib_def)
  from getitem_propagates_parse_failure [OF 1 2 3]
    getitem_propagates_parse_failure [OF 1 2 5] 1 2 3 4 show ?thesis
    by simp
qed

theorem getitem_cache_returns_None_witness:
  "reachable demo_lib (demo_dataset True True) \<and>
   cache (demo_dataset True True) \<and> training (demo_dataset True True) \<and>
   getitem demo_lib (demo_dataset True True) 0 =
     Some (Inr (Tuple4 tree_A (Some (2, [(0, 1), (1, 0)])) None None),
           (demo_dataset True True)
             \<lparr>trees := [Some tree_A, None, None],
              mol_graphs := [Some (2, [(0, 1), (1, 0)]), None, None]\<rparr>) \<and>
   cand_graphs ((demo_dataset True True)
             \<lparr>trees := [Some tree_A, None, None],
              mol_graphs := [Some (2, [(0, 1), (1, 0)]), None, None]\<rparr>) = [None, None, None] \<and>
   stereo_cand_graphs ((demo_dataset True True)
             \<lparr>trees := [Some tree_A, None, None],
              mol_graphs := [Some (2, [(0, 1), (1, 0)]), None, None]\<rparr>) = [None, None, None]"
proof -
  let ?ds' = "(demo_dataset True True)
             \<lparr>trees := [Some tree_A, None, None],
              mol_graphs := [Some (2, [(0, 1), (1, 0)]), None, None]\<rparr>"
  have 1: "reachable demo_lib (demo_dataset True True)"
    by (rule demo_reachable)
  have 2: "cache (demo_dataset True True)" and 3: "training (demo_dataset True True)"
    by (simp_all add: demo_dataset_def)
  have f: "fetch demo_lib (demo_dataset True True) 0 =
             (Inr (tree_A, Some (2, [(0, 1), (1, 0)])), ?ds')"
    by (simp add: fetch_def cached_tree_def py_get_def py_set_def py_index_def
        demo_dataset_def demo_data_def demo_construct_A)
  obtain r ds' where g: "getitem demo_lib (demo_dataset True True) 0 = Some (r, ds')"
    using f by (simp add: getitem_def cached_tree_def py_get_def py_index_def demo_dataset_def)
  from getitem_state [OF g] f have ds': "ds' = ?ds'" by simp
  from g f obtain item where r: "r = Inr item" "item = Tuple4 tree_A (Some (2, [(0, 1), (1, 0)])) None None"
    by (simp add: getitem_def cached_tree_def py_get_def py_index_def demo_dataset_def)
  from getitem_cache_returns_None [OF 1 2 3 g [unfolded r(1)]] r ds' g 1 2 3 show ?thesis
    by (simp add: demo_dataset_def)
qed


subsection \<open>\<open>JTVAECollator.__call__\<close>\<close>

lemma bond_loop_lockstep:
  "bond_loop L G tree bs st = Inr st' \<Longrightarrow>
   length (source_edges st) = length (target_edges st) \<Longrightarrow>
   length (source_edges st') = length (target_edges st')"
proof (induction bs arbitrary: st)
  case Nil
  then show ?case by simp
next
  case (Cons jb bs)
  obtain j b where jb: "jb = (j, b)" by (cases jb)
  from Cons.prems show ?case
    unfolding jb
    by (auto simp: Let_def bind_Inr_iff split: if_splits dest!: Cons.IH)
qed

lemma mol_loop_lockstep:
  "mol_loop L G tree ms st = Inr st' \<Longrightarrow>
   length (source_edges st) = length (target_edges st) \<Longrightarrow>
   length (source_edges st') = length (target_edges st')"
proof (induction ms arbitrary: st)
  case Nil
  then show ?case by simp
next
  case (Cons m ms)
  from Cons.prems(1) obtain st1 where
    1: "bond_loop L G tree (List.enumerate 0 (GetBonds m)) st = Inr st1"
    and 2: "mol_loop L G tree ms (st1\<lparr>n_nodes := n_nodes st1 + int (GetNumAtoms m)\<rparr>) = Inr st'"
    by (auto simp: bind_Inr_iff)
  from bond_loop_lockstep [OF 1 Cons.prems(2)] Cons.IH [OF 2] show ?case by simp
qed

lemma node_loop_lockstep:
  "node_loop L G tree ns st = Inr st' \<Longrightarrow>
   length (source_edges st) = length (target_edges st) \<Longrightarrow>
   length (source_edges st') = length (target_edges st')"
proof (induction ns arbitrary: st)
  case Nil
  then show ?case by simp
next
  case (Cons kn ns)
  obtain k nd where kn: "kn = (k, nd)" by (cases kn)
  show ?case
  proof (cases "is_leaf nd \<or> length (cands nd) = 1")
    case True
    with Cons kn show ?thesis by simp
  next
    case False
    with Cons.prems(1) kn obtain st1 where
      1: "mol_loop L G tree (cand_mols nd) st = Inr st1"
      and 2: "node_loop L G tree ns
               (st1\<lparr>cand_idx_list := cand_idx_list st1 @ replicate (length (cands nd)) (loop_i st1)\<rparr>) = Inr st'"
      by (auto simp: bind_Inr_iff)
    from mol_loop_lockstep [OF 1 Cons.prems(2)] Cons.IH [OF 2] show ?thesis by simp
  qed
qed

lemma tree_loop_lockstep:
  "tree_loop L G jts st = Inr st' \<Longrightarrow>
   length (source_edges st) = length (target_edges st) \<Longrightarrow>
   length (source_edges st') = length (target_edges st')"
proof (induction jts arbitrary: st)
  case Nil
  then show ?case by simp
next
  case (Cons jt jts)
  obtain j t where jt: "jt = (j, t)" by (cases jt)
  from Cons.prems(1) jt obtain st1 where
    1: "node_loop L G t (nodes_dict t) (st\<lparr>loop_i := int j\<rparr>) = Inr st1"
    and 2: "tree_loop L G jts st1 = Inr st'"
    by (auto simp: bind_Inr_iff)
  from node_loop_lockstep [OF 1] Cons.prems(2) Cons.IH [OF 2] show ?case by simp
qed

lemma unzip4_trees: "unzip4 batch = Some (ts, mgs, cgss, sgss) \<Longrightarrow> ts = map item_tree batch"
proof (induction batch arbitrary: ts mgs cgss sgss rule: unzip4.induct)
  case 1
  then show ?case by simp
next
  case (2 t g rest)
  then show ?case by simp
next
  case (3 t g c s rest)
  then show ?case by (auto split: option.splits)
qed

lemma unzip_train_trees:
  "unzip_train batch = Inr (ts, mgs, cgss, sgss) \<Longrightarrow> ts = map item_tree batch"
  by (auto simp: unzip_train_def split: if_splits option.splits dest: unzip4_trees)

text \<open>What a training-mode call that returns has computed on its way.\<close>

lemma collate_train_returns:
  assumes "collate L True batch = (Inr (Train_batch r), ts')"
  shows "\<exists>st sst.
           gathered L batch = Inr st \<and>
           stereo_batch_loop (List.enumerate 0 (set_idx_trees (map item_tree batch) 0))
             \<lparr>done_trees = [], stereo_idx_list = [], labels_list = []\<rparr> = (None, sst) \<and>
           ts' = done_trees sst \<and> batch_trees r = done_trees sst \<and>
           tree_mess_source_edges r =
             (if length (source_edges st) = 0 then to_int (zeros [0, 2])
              else IntTensor (source_edges st)) \<and>
           tree_mess_target_edges r =
             (if length (source_edges st) = 0 then to_int (zeros [0, 2])
              else IntTensor (target_edges st)) \<and>
           cand_batch_idx r =
             (if length (cand_idx_list st) = 0 then to_long (zeros [0])
              else LongTensor (cand_idx_list st)) \<and>
           stereo_cand_batch_idx r =
             (if length (stereo_idx_list sst) = 0 then to_long (zeros [0])
              else LongTensor (stereo_idx_list sst))"
proof -
  from assms obtain ts mgs cgss sgss G MG where
    u: "unzip_train batch = Inr (ts, mgs, cgss, sgss)"
    and G: "dgl_batch L (map (\<lambda>tree. Some (graph tree)) ts) = Inr G"
    and c: "collate_train L ts G MG cgss sgss = (Inr (Train_batch r), ts')"
    by (auto simp: collate_def bind_Inr_iff split: sum.splits prod.splits)
  from unzip_train_trees [OF u] have ts: "ts = map item_tree batch" .
  from c obtain st where st: "tree_loop L G (List.enumerate 0 (set_idx_trees ts 0)) cstate0 = Inr st"
    by (auto simp: collate_train_def Let_def split: sum.splits)
  from u G st have g: "gathered L batch = Inr st"
    by (simp add: gathered_def)
  from c st show ?thesis
    unfolding g ts [symmetric]
    by (auto simp: collate_train_def Let_def split: sum.splits prod.splits option.splits)
qed

text \<open>
  C9. In a training-mode call that returns, the lists of source and target edges that
  lines 329 to 337 have gathered have the same length, and the two tensors made of them
  have that many rows of two entries.
\<close>

theorem collate_edges_lockstep:
  assumes "collate L True batch = (Inr (Train_batch r), ts')"
  shows "\<exists>st. gathered L batch = Inr st \<and>
           length (source_edges st) = length (target_edges st) \<and>
           shape (tree_mess_source_edges r) = [length (source_edges st), 2] \<and>
           shape (tree_mess_target_edges r) = [length (target_edges st), 2]"
proof (rule exE [OF collate_train_returns [OF assms]], elim exE conjE)
  fix st
  assume g: "gathered L batch = Inr st"
    and s: "tree_mess_source_edges r =
             (if length (source_edges st) = 0 then to_int (zeros [0, 2])
              else IntTensor (source_edges st))"
    and t: "tree_mess_target_edges r =
             (if length (source_edges st) = 0 then to_int (zeros [0, 2])
              else IntTensor (target_edges st))"
  from g obtain G ts where "tree_loop L G (List.enumerate 0 ts) cstate0 = Inr st"
    by (auto simp: gathered_def bind_Inr_iff)
  from tree_loop_lockstep [OF this] have l: "length (source_edges st) = length (target_edges st)"
    by (simp add: cstate0_def)
  have "shape (tree_mess_source_edges r) = [length (source_edges st), 2]"
    unfolding s by (simp add: to_int_def zeros_def IntTensor_def)
  moreover have "shape (tree_mess_target_edges r) = [length (target_edges st), 2]"
    unfolding t using l by (auto simp: to_int_def zeros_def IntTensor_def)
  ultimately show ?thesis
    using g l by (intro exI [of _ st]) simp
qed

theorem collate_edges_lockstep_witness:
  "\<exists>r ts'. collate demo_lib True demo_items = (Inr (Train_batch r), ts') \<and>
     shape (tree_mess_source_edges r) = [2, 2] \<and>
     shape (tree_mess_target_edges r) = [2, 2]"
proof -
  have "case collate demo_lib True demo_items of
          (Inr (Train_batch r), ts') \<Rightarrow> True | _ \<Rightarrow> False"
    by code_simp
  then obtain r ts' where eq: "collate demo_lib True demo_items = (Inr (Train_batch r), ts')"
    by (auto split: prod.splits sum.splits batch.splits)
  have g: "map_sum id (\<lambda>st. (length (source_edges st), length (target_edges st)))
             (gathered demo_lib demo_items) = Inr (2, 2)"
    by code_simp
  have "shape (tree_mess_source_edges r) = [2, 2] \<and>
        shape (tree_mess_target_edges r) = [2, 2]"
  proof (rule exE [OF collate_edges_lockstep [OF eq]], elim conjE)
    fix st
    assume "gathered demo_lib demo_items = Inr st"
      and "shape (tree_mess_source_edges r) = [length (source_edges st), 2]"
      and "shape (tree_mess_target_edges r) = [length (target_edges st), 2]"
    with g show ?thesis by simp
  qed
  with eq show ?thesis by blast
qed

text \<open>
  What lines 348 to 374 make of empty lists, in a training-mode call that returns: when
  no tree-message edge has been gathered, both edge tensors are 0-by-2 tensors of 32-bit
  integers; when no candidate entry (no stereo candidate entry) has been gathered,
  \<open>cand_batch_idx\<close> (\<open>stereo_cand_batch_idx\<close>) is a tensor of 64-bit integers of length 0.
\<close>

lemma collate_empty_tensors_if_returns:
  assumes "collate L True batch = (Inr (Train_batch r), ts')"
  shows "\<exists>st. gathered L batch = Inr st \<and>
           (source_edges st = [] \<longrightarrow>
              tree_mess_source_edges r = \<lparr>shape = [0, 2], dtype = Int32, entries = []\<rparr> \<and>
              tree_mess_target_edges r = \<lparr>shape = [0, 2], dtype = Int32, entries = []\<rparr>) \<and>
           (cand_idx_list st = [] \<longrightarrow>
              cand_batch_idx r = \<lparr>shape = [0], dtype = Int64, entries = []\<rparr>) \<and>
           (gathered_stereo batch = [] \<longrightarrow>
              stereo_cand_batch_idx r = \<lparr>shape = [0], dtype = Int64, entries = []\<rparr>)"
proof (rule exE [OF collate_train_returns [OF assms]], elim exE conjE)
  fix st sst
  assume g: "gathered L batch = Inr st"
    and sl: "stereo_batch_loop (List.enumerate 0 (set_idx_trees (map item_tree batch) 0))
             \<lparr>done_trees = [], stereo_idx_list = [], labels_list = []\<rparr> = (None, sst)"
    and s: "tree_mess_source_edges r =
             (if length (source_edges st) = 0 then to_int (zeros [0, 2])
              else IntTensor (source_edges st))"
    and t: "tree_mess_target_edges r =
             (if length (source_edges st) = 0 then to_int (zeros [0, 2])
              else IntTensor (target_edges st))"
    and c: "cand_batch_idx r =
             (if length (cand_idx_list st) = 0 then to_long (zeros [0])
              else LongTensor (cand_idx_list st))"
    and sc: "stereo_cand_batch_idx r =
             (if length (stereo_idx_list sst) = 0 then to_long (zeros [0])
              else LongTensor (stereo_idx_list sst))"
  have 1: "source_edges st = [] \<longrightarrow>
              tree_mess_source_edges r = \<lparr>shape = [0, 2], dtype = Int32, entries = []\<rparr> \<and>
              tree_mess_target_edges r = \<lparr>shape = [0, 2], dtype = Int32, entries = []\<rparr>"
    unfolding s t by (simp add: to_int_def zeros_def)
  have 2: "cand_idx_list st = [] \<longrightarrow>
              cand_batch_idx r = \<lparr>shape = [0], dtype = Int64, entries = []\<rparr>"
    unfolding c by (simp add: to_long_def zeros_def)
  have "gathered_stereo batch = stereo_idx_list sst"
    by (simp add: gathered_stereo_def sl)
  then have 3: "gathered_stereo batch = [] \<longrightarrow>
              stereo_cand_batch_idx r = \<lparr>shape = [0], dtype = Int64, entries = []\<rparr>"
    unfolding sc by (simp add: to_long_def zeros_def)
  from g 1 2 3 show ?thesis
    by (intro exI [of _ st]) simp
qed

text \<open>
  A training-mode call that returns has had all four graph lists batched by the library.
\<close>

lemma collate_train_batched:
  assumes "collate L True batch = (Inr b, ts')"
    and "unzip_train batch = Inr (ts, mgs, cgss, sgss)"
  shows "\<exists>cgs CG sgs SG. chain cgss = Inr cgs \<and> dgl_batch L (map Some cgs) = Inr CG \<and>
           chain sgss = Inr sgs \<and> dgl_batch L (map Some sgs) = Inr SG"
proof -
  from assms obtain G MG where c: "collate_train L ts G MG cgss sgss = (Inr b, ts')"
    by (auto simp: collate_def bind_Inr_iff split: sum.splits prod.splits)
  then obtain CG SG where
    "bind (chain cgss) (\<lambda>cgs. bind (dgl_batch L (map Some cgs)) (\<lambda>CG.
       bind (chain sgss) (\<lambda>sgs. bind (dgl_batch L (map Some sgs)) (\<lambda>SG.
       Inr (CG, SG))))) = Inr (CG, SG)"
    by (auto simp: collate_train_def Let_def split: sum.splits prod.splits option.splits)
  then show ?thesis
    by (auto simp: bind_Inr_iff)
qed

text \<open>
  C5. The code does not do what the claim says. Lines 344 and 346 hand the flattened
  lists of candidate graphs and of stereo candidate graphs to the library before lines
  355 and 371 look at the index lists. With a library that raises on the empty list, a
  batch without candidate graphs, or without stereo candidate graphs, makes the call
  raise: the branches for the empty index lists are not reached.
\<close>

theorem collate_raises_without_candidates:
  assumes "dgl_batch L [] = Inl e"
    and "unzip_train batch = Inr (ts, mgs, cgss, sgss)"
    and "chain cgss = Inr [] \<or> chain sgss = Inr []"
  shows "\<exists>e' ts'. collate L True batch = (Inl e', ts')"
proof (cases "collate L True batch")
  case (Pair res ts')
  show ?thesis
  proof (cases res)
    case (Inl e')
    with Pair show ?thesis by simp
  next
    case (Inr b)
    from collate_train_batched [OF Pair [unfolded Inr] assms(2)] obtain cgs CG sgs SG where
      "chain cgss = Inr cgs" "dgl_batch L (map Some cgs) = Inr CG"
      "chain sgss = Inr sgs" "dgl_batch L (map Some sgs) = Inr SG"
      by blast
    with assms(1,3) show ?thesis by auto
  qed
qed

theorem collate_raises_without_candidates_witness:
  "dgl_batch strict_lib [] = Inl (LibraryError ''empty list of graphs'') \<and>
   unzip_train (take 1 demo_items) =
     Inr ([tree_A], [Some (3, [(0, 1), (1, 0), (1, 2), (2, 1)])], [Some []], [Some []]) \<and>
   chain [Some ([] :: demo_graph list)] = Inr [] \<and>
   map_sum id cand_idx_list (gathered strict_lib (take 1 demo_items)) = Inr [] \<and>
   gathered_stereo (take 1 demo_items :: demo_graph item list) = [] \<and>
   fst (collate strict_lib True (take 1 demo_items)) = Inl (LibraryError ''empty list of graphs'')"
proof -
  have 1: "dgl_batch strict_lib [] = Inl (LibraryError ''empty list of graphs'')"
    by (simp add: strict_lib_def)
  have 2: "unzip_train (take 1 demo_items) =
     Inr ([tree_A], [Some (3, [(0, 1), (1, 0), (1, 2), (2, 1)])], [Some []], [Some []])"
    by (simp add: demo_items_def unzip_train_def)
  have 3: "chain [Some ([] :: demo_graph list)] = Inr [] \<or> chain [Some ([] :: demo_graph list)] = Inr []"
    by simp
  have 4: "map_sum id cand_idx_list (gathered strict_lib (take 1 demo_items)) = Inr []"
    by code_simp
  have 5: "gathered_stereo (take 1 demo_items :: demo_graph item list) = []"
    by code_simp
  have 6: "case fst (collate strict_lib True (take 1 demo_items)) of
             Inl e' \<Rightarrow> e' = LibraryError ''empty list of graphs'' | Inr b \<Rightarrow> True"
    by code_simp
  from collate_raises_without_candidates [OF 1 2 3] obtain e' ts' where
    "collate strict_lib True (take 1 demo_items) = (Inl e', ts')" by blast
  with 6 have "fst (collate strict_lib True (take 1 demo_items)) = Inl (LibraryError ''empty list of graphs'')"
    by simp
  with 1 2 3 4 5 show ?thesis by simp
qed

text \<open>
  C1. The code does not do what the claim says. In the batch \<open>demo_items\<close> the only node
  with candidates belongs to the second tree, at position 1 of the batch, so the claim
  gives \<open>[1, 1]\<close>. The loop over the bonds (line 322) uses the variable \<open>i\<close> of the loop
  over the trees (line 316), and line 341 writes the index of the last bond, 0.
\<close>

theorem cand_batch_idx_holds_bond_index:
  "case fst (collate demo_lib True demo_items) of
     Inr (Train_batch r) \<Rightarrow> cand_batch_idx r = \<lparr>shape = [2], dtype = Int64, entries = [0, 0]\<rparr>
   | _ \<Rightarrow> False"
  by code_simp

text \<open>The writes to the input trees: lines 305 to 309 and lines 363 to 367.\<close>

lemma set_idx_keys_snd: "snd (set_idx_keys ks nodes tot) = tot + int (length ks)"
  by (induction ks arbitrary: nodes tot) simp_all

lemma set_idx_keys_keys: "map fst (fst (set_idx_keys ks nodes tot)) = map fst nodes"
proof (induction ks arbitrary: nodes tot)
  case Nil
  show ?case by simp
next
  case (Cons k ks)
  have "map fst (map (\<lambda>(k', nd). if k' = k then (k', nd\<lparr>idx := Some tot\<rparr>) else (k', nd)) nodes)
        = map fst nodes"
    by (induction nodes) auto
  with Cons show ?case by simp
qed

lemma set_idx_keys_all_set:
  "\<forall>p\<in>set nodes. fst p \<in> set ks \<or> idx (snd p) \<noteq> None \<Longrightarrow>
   \<forall>p\<in>set (fst (set_idx_keys ks nodes tot)). idx (snd p) \<noteq> None"
proof (induction ks arbitrary: nodes tot)
  case Nil
  then show ?case by simp
next
  case (Cons k ks)
  let ?nodes = "map (\<lambda>(k', nd). if k' = k then (k', nd\<lparr>idx := Some tot\<rparr>) else (k', nd)) nodes"
  from Cons.prems have "\<forall>p\<in>set ?nodes. fst p \<in> set ks \<or> idx (snd p) \<noteq> None"
    by (auto split: if_splits)
  from Cons.IH [OF this] show ?case by simp
qed

lemma takeWhile_distinct_nth:
  "distinct ks \<Longrightarrow> m < length ks \<Longrightarrow> length (takeWhile (\<lambda>x. x \<noteq> ks ! m) ks) = m"
proof (induction ks arbitrary: m)
  case Nil
  then show ?case by simp
next
  case (Cons k ks)
  show ?case
  proof (cases m)
    case 0
    then show ?thesis by simp
  next
    case (Suc m')
    with Cons.prems have "ks ! m' \<noteq> k" by auto
    with Suc Cons show ?thesis by simp
  qed
qed

lemma set_idx_keys_fst:
  "distinct ks \<Longrightarrow>
   fst (set_idx_keys ks nodes tot) =
     map (\<lambda>(k, nd). if k \<in> set ks
                      then (k, nd\<lparr>idx := Some (tot + int (length (takeWhile (\<lambda>x. x \<noteq> k) ks)))\<rparr>)
                      else (k, nd)) nodes"
proof (induction ks arbitrary: nodes tot)
  case Nil
  show ?case by simp
next
  case (Cons k ks)
  then have d: "distinct ks" "k \<notin> set ks" by simp_all
  show ?case
    by (simp add: Cons.IH [OF d(1)]) (use d(2) in \<open>auto\<close>)
qed

lemma set_idx_keys_idx:
  assumes "distinct (map fst nodes)"
  shows "map (idx \<circ> snd) (fst (set_idx_keys (map fst nodes) nodes tot)) =
         map (\<lambda>m. Some (tot + int m)) [0..<length nodes]"
proof (rule nth_equalityI)
  show "length (map (idx \<circ> snd) (fst (set_idx_keys (map fst nodes) nodes tot))) =
        length (map (\<lambda>m. Some (tot + int m)) [0..<length nodes])"
    by (simp add: set_idx_keys_fst [OF assms])
next
  fix m
  assume "m < length (map (idx \<circ> snd) (fst (set_idx_keys (map fst nodes) nodes tot)))"
  then have m: "m < length nodes"
    by (simp add: set_idx_keys_fst [OF assms])
  obtain k nd where p: "nodes ! m = (k, nd)" by (cases "nodes ! m")
  with m have k: "k = map fst nodes ! m" by simp
  from m have "map fst nodes ! m \<in> set (map fst nodes)"
    by (intro nth_mem) simp
  then have "k \<in> set (map fst nodes)"
    unfolding k .
  moreover from takeWhile_distinct_nth [OF assms, of m] m k
  have "length (takeWhile (\<lambda>x. x \<noteq> k) (map fst nodes)) = m" by simp
  ultimately show "map (idx \<circ> snd) (fst (set_idx_keys (map fst nodes) nodes tot)) ! m =
        map (\<lambda>m. Some (tot + int m)) [0..<length nodes] ! m"
    using m p by (simp add: set_idx_keys_fst [OF assms])
qed

lemma set_idx_trees_length: "length (set_idx_trees ts tot) = length ts"
  by (induction ts arbitrary: tot) (auto split: prod.splits)

lemma set_idx_trees_nth:
  "j < length ts \<Longrightarrow>
   set_idx_trees ts tot ! j =
     (ts ! j)\<lparr>nodes_dict :=
        fst (set_idx_keys (map fst (nodes_dict (ts ! j))) (nodes_dict (ts ! j))
               (tot + int (sum_list (map (\<lambda>t. length (nodes_dict t)) (take j ts)))))\<rparr>"
proof (induction ts arbitrary: tot j)
  case Nil
  then show ?case by simp
next
  case (Cons t ts)
  obtain nodes tot' where s: "set_idx_keys (map fst (nodes_dict t)) (nodes_dict t) tot = (nodes, tot')"
    by (cases "set_idx_keys (map fst (nodes_dict t)) (nodes_dict t) tot")
  from set_idx_keys_snd [of "map fst (nodes_dict t)" "nodes_dict t" tot] s
  have tot': "tot' = tot + int (length (nodes_dict t))" by simp
  show ?case
  proof (cases j)
    case 0
    with s show ?thesis by simp
  next
    case (Suc j')
    with Cons.prems have "j' < length ts" by simp
    from Cons.IH [OF this, of tot'] s Suc tot' show ?thesis
      by (simp add: add.assoc)
  qed
qed

lemma list_index_finds: "x \<in> set xs \<Longrightarrow> \<exists>p. list_index xs x = Inr p"
  by (induction xs) auto

lemma stereo_batch_loop_result:
  "\<exists>sst. stereo_batch_loop xs st = (None, sst) \<and>
         done_trees sst = done_trees st @ map (\<lambda>jt. append_smiles3D (snd jt)) xs"
proof (induction xs arbitrary: st)
  case Nil
  show ?case by simp
next
  case (Cons jt xs)
  obtain j t where jt: "jt = (j, t)" by (cases jt)
  show ?case
  proof (cases "length (stereo_cands t) = 1")
    case True
    with Cons.IH [of "st\<lparr>done_trees := done_trees st @ [t]\<rparr>"] jt show ?thesis
      by (simp add: append_smiles3D_def)
  next
    case False
    let ?cs = "if Str (smiles3D t) \<notin> set (stereo_cands t)
               then stereo_cands t @ [Str (smiles3D t)] else stereo_cands t"
    have "Str (smiles3D t) \<in> set ?cs" by simp
    from list_index_finds [OF this] obtain p where p: "list_index ?cs (Str (smiles3D t)) = Inr p" ..
    have a: "append_smiles3D t = t\<lparr>stereo_cands := ?cs\<rparr>"
      using False by (simp add: append_smiles3D_def)
    from Cons.IH [of "st\<lparr>done_trees := done_trees st @ [t\<lparr>stereo_cands := ?cs\<rparr>],
                      stereo_idx_list := stereo_idx_list st @ replicate (length ?cs) (int j),
                      labels_list := labels_list st @ [(int p, int (length ?cs))]\<rparr>"]
    show ?thesis
      unfolding jt using False p a by (simp add: Let_def)
  qed
qed

text \<open>
  Lines 348 to 374 raise nothing: a training-mode call returns as soon as the lists have
  been gathered and the library has batched the molecular, candidate and stereo
  candidate graphs.
\<close>

lemma collate_returns:
  assumes "gathered L batch = Inr st"
    and "unzip_train batch = Inr (ts, mgs, cgss, sgss)"
    and "dgl_batch L mgs = Inr MG"
    and "chain cgss = Inr cgs" and "dgl_batch L (map Some cgs) = Inr CG"
    and "chain sgss = Inr sgs" and "dgl_batch L (map Some sgs) = Inr SG"
  shows "\<exists>r ts'. collate L True batch = (Inr (Train_batch r), ts')"
proof -
  from assms(1,2) obtain G where G: "dgl_batch L (map (\<lambda>tree. Some (graph tree)) ts) = Inr G"
    and t: "tree_loop L G (List.enumerate 0 (set_idx_trees ts 0)) cstate0 = Inr st"
    by (auto simp: gathered_def bind_Inr_iff)
  from stereo_batch_loop_result
    [of "List.enumerate 0 (set_idx_trees ts 0)"
        "\<lparr>done_trees = [], stereo_idx_list = [], labels_list = []\<rparr>"]
  obtain sst where s: "stereo_batch_loop (List.enumerate 0 (set_idx_trees ts 0))
        \<lparr>done_trees = [], stereo_idx_list = [], labels_list = []\<rparr> = (None, sst)"
    by blast
  from assms(2-) G have "collate L True batch = collate_train L ts G MG cgss sgss"
    by (simp add: collate_def)
  with t s assms(4-) show ?thesis
    by (simp add: collate_train_def Let_def)
qed

lemma map_snd_enumerate: "map snd (List.enumerate n xs) = xs"
  by (simp add: enumerate_eq_zip)

lemma collate_train_trees:
  assumes "collate L True batch = (Inr (Train_batch r), ts')"
  shows "batch_trees r = ts' \<and>
         ts' = map append_smiles3D (set_idx_trees (map item_tree batch) 0)"
proof (rule exE [OF collate_train_returns [OF assms]], elim exE conjE)
  fix st sst
  assume sl: "stereo_batch_loop (List.enumerate 0 (set_idx_trees (map item_tree batch) 0))
             \<lparr>done_trees = [], stereo_idx_list = [], labels_list = []\<rparr> = (None, sst)"
    and t: "ts' = done_trees sst" and b: "batch_trees r = done_trees sst"
  from stereo_batch_loop_result
    [of "List.enumerate 0 (set_idx_trees (map item_tree batch) 0)"
        "\<lparr>done_trees = [], stereo_idx_list = [], labels_list = []\<rparr>"] sl
  have "done_trees sst = map (\<lambda>jt. append_smiles3D (snd jt))
          (List.enumerate 0 (set_idx_trees (map item_tree batch) 0))"
    by auto
  also have "\<dots> = map append_smiles3D (map snd (List.enumerate 0 (set_idx_trees (map item_tree batch) 0)))"
    by (simp only: map_map comp_def)
  finally have "done_trees sst = map append_smiles3D (set_idx_trees (map item_tree batch) 0)"
    by (simp only: map_snd_enumerate)
  with t b show ?thesis by simp
qed


text \<open>
  C8. A training-mode call that returns has changed its input trees: the trees it
  returns are the input trees, every node of every tree has an \<open>idx\<close> (its position in
  the batch-wide count of nodes, where the keys of the tree are distinct, as they are
  in a dictionary), a tree with more than one stereo candidate whose 3-D SMILES was
  not among them has it appended, and a batch in which some node had no \<open>idx\<close> before
  is not what it was.
\<close>

theorem collate_mutates_trees:
  assumes "collate L True batch = (Inr (Train_batch r), ts')"
  shows "batch_trees r = ts' \<and> length ts' = length batch \<and>
     (\<forall>j<length batch. \<forall>p\<in>set (nodes_dict (ts' ! j)). idx (snd p) \<noteq> None) \<and>
     (\<forall>j<length batch. distinct (map fst (nodes_dict (item_tree (batch ! j)))) \<longrightarrow>
        map (idx \<circ> snd) (nodes_dict (ts' ! j)) =
        map (\<lambda>m. Some (int (node_offset batch j + m)))
          [0..<length (nodes_dict (item_tree (batch ! j)))]) \<and>
     (\<forall>j<length batch.
        1 < length (stereo_cands (item_tree (batch ! j))) \<and>
        Str (smiles3D (item_tree (batch ! j))) \<notin> set (stereo_cands (item_tree (batch ! j))) \<longrightarrow>
        stereo_cands (ts' ! j) =
          stereo_cands (item_tree (batch ! j)) @ [Str (smiles3D (item_tree (batch ! j)))]) \<and>
     ((\<exists>j<length batch. \<exists>p\<in>set (nodes_dict (item_tree (batch ! j))). idx (snd p) = None) \<longrightarrow>
        ts' \<noteq> map item_tree batch)"
proof -
  let ?ts = "map item_tree batch"
  from collate_train_trees [OF assms]
  have b: "batch_trees r = ts'" and ts': "ts' = map append_smiles3D (set_idx_trees ?ts 0)"
    by simp_all
  have len: "length ts' = length batch"
    by (simp add: ts' set_idx_trees_length)
  have off: "int (sum_list (map (\<lambda>t. length (nodes_dict t)) (take j ?ts))) = int (node_offset batch j)" for j
    by (simp add: node_offset_def take_map comp_def)
  have nth: "ts' ! j = append_smiles3D ((item_tree (batch ! j))\<lparr>nodes_dict :=
        fst (set_idx_keys (map fst (nodes_dict (item_tree (batch ! j))))
               (nodes_dict (item_tree (batch ! j))) (int (node_offset batch j)))\<rparr>)"
    if "j < length batch" for j
    using that set_idx_trees_nth [of j ?ts 0] off [of j]
    by (simp add: ts' set_idx_trees_length)
  have nodes: "nodes_dict (ts' ! j) =
        fst (set_idx_keys (map fst (nodes_dict (item_tree (batch ! j))))
               (nodes_dict (item_tree (batch ! j))) (int (node_offset batch j)))"
    if "j < length batch" for j
    by (simp add: nth [OF that] append_smiles3D_def)
  have 1: "\<forall>j<length batch. \<forall>p\<in>set (nodes_dict (ts' ! j)). idx (snd p) \<noteq> None"
  proof (intro allI impI)
    fix j assume j: "j < length batch"
    have "\<forall>p\<in>set (nodes_dict (item_tree (batch ! j))).
            fst p \<in> set (map fst (nodes_dict (item_tree (batch ! j)))) \<or> idx (snd p) \<noteq> None"
      by simp
    from set_idx_keys_all_set [OF this]
    show "\<forall>p\<in>set (nodes_dict (ts' ! j)). idx (snd p) \<noteq> None"
      unfolding nodes [OF j] .
  qed
  have 2: "\<forall>j<length batch. distinct (map fst (nodes_dict (item_tree (batch ! j)))) \<longrightarrow>
        map (idx \<circ> snd) (nodes_dict (ts' ! j)) =
        map (\<lambda>m. Some (int (node_offset batch j + m)))
          [0..<length (nodes_dict (item_tree (batch ! j)))]"
  proof (intro allI impI)
    fix j assume j: "j < length batch"
      and d: "distinct (map fst (nodes_dict (item_tree (batch ! j))))"
    from set_idx_keys_idx [OF d, of "int (node_offset batch j)"]
    show "map (idx \<circ> snd) (nodes_dict (ts' ! j)) =
        map (\<lambda>m. Some (int (node_offset batch j + m)))
          [0..<length (nodes_dict (item_tree (batch ! j)))]"
      unfolding nodes [OF j] by simp
  qed
  have 3: "\<forall>j<length batch.
        1 < length (stereo_cands (item_tree (batch ! j))) \<and>
        Str (smiles3D (item_tree (batch ! j))) \<notin> set (stereo_cands (item_tree (batch ! j))) \<longrightarrow>
        stereo_cands (ts' ! j) =
          stereo_cands (item_tree (batch ! j)) @ [Str (smiles3D (item_tree (batch ! j)))]"
    by (simp add: nth append_smiles3D_def)
  have 4: "(\<exists>j<length batch. \<exists>p\<in>set (nodes_dict (item_tree (batch ! j))). idx (snd p) = None) \<longrightarrow>
        ts' \<noteq> map item_tree batch"
  proof (intro impI notI)
    assume "\<exists>j<length batch. \<exists>p\<in>set (nodes_dict (item_tree (batch ! j))). idx (snd p) = None"
      and eq: "ts' = map item_tree batch"
    then obtain j p where j: "j < length batch"
      and p: "p \<in> set (nodes_dict (item_tree (batch ! j)))" "idx (snd p) = None"
      by blast
    from eq j have "ts' ! j = item_tree (batch ! j)" by simp
    with p have "p \<in> set (nodes_dict (ts' ! j))" by simp
    with 1 j have "idx (snd p) \<noteq> None" by blast
    with p show False by simp
  qed
  from b len 1 2 3 4 show ?thesis by (intro conjI)
qed


theorem collate_mutates_trees_witness:
  "\<exists>r ts'. collate demo_lib True demo_items = (Inr (Train_batch r), ts') \<and>
     batch_trees r = ts' \<and> length ts' = 2 \<and>
     map (idx \<circ> snd) (nodes_dict (ts' ! 0)) = [Some 0, Some 1] \<and>
     map (idx \<circ> snd) (nodes_dict (ts' ! 1)) = [Some 2, Some 3, Some 4] \<and>
     stereo_cands (ts' ! 1) =
       [Str ''C[C@@H](N)c1ccccc1'', Str ''CC(N)c1ccccc1'', Str ''C[C@H](N)c1ccccc1''] \<and>
     ts' \<noteq> map item_tree demo_items"
proof -
  have "case collate demo_lib True demo_items of
          (Inr (Train_batch r), ts') \<Rightarrow> True | _ \<Rightarrow> False"
    by code_simp
  then obtain r ts' where eq: "collate demo_lib True demo_items = (Inr (Train_batch r), ts')"
    by (auto split: prod.splits sum.splits batch.splits)
  have len: "length demo_items = 2"
    by (simp add: demo_items_def)
  have t0: "item_tree (demo_items ! 0) = tree_A" and t1: "item_tree (demo_items ! 1) = tree_B"
    by (simp_all add: demo_items_def)
  have d0: "distinct (map fst (nodes_dict (item_tree (demo_items ! 0))))"
    and d1: "distinct (map fst (nodes_dict (item_tree (demo_items ! 1))))"
    unfolding t0 t1 by (simp_all add: tree_A_def tree_B_def)
  have o0: "node_offset demo_items 0 = 0" and o1: "node_offset demo_items 1 = 2"
    by (simp_all add: node_offset_def demo_items_def tree_A_def)
  have n0: "[0..<length (nodes_dict (item_tree (demo_items ! 0)))] = [0, 1]"
    and n1: "[0..<length (nodes_dict (item_tree (demo_items ! 1)))] = [0, 1, 2]"
    unfolding t0 t1 by (simp_all add: tree_A_def tree_B_def upt_rec)
  have s1: "1 < length (stereo_cands (item_tree (demo_items ! 1))) \<and>
        Str (smiles3D (item_tree (demo_items ! 1))) \<notin> set (stereo_cands (item_tree (demo_items ! 1)))"
    unfolding t1 by (simp add: tree_B_def)
  have u: "\<exists>j<length demo_items. \<exists>p\<in>set (nodes_dict (item_tree (demo_items ! j))). idx (snd p) = None"
    unfolding len by (rule exI [of _ 0]) (simp add: t0 tree_A_def demo_leaf_def)
  from collate_mutates_trees [OF eq]
  have a: "batch_trees r = ts'" "length ts' = length demo_items"
    and b: "\<forall>j<length demo_items. distinct (map fst (nodes_dict (item_tree (demo_items ! j)))) \<longrightarrow>
        map (idx \<circ> snd) (nodes_dict (ts' ! j)) =
        map (\<lambda>m. Some (int (node_offset demo_items j + m)))
          [0..<length (nodes_dict (item_tree (demo_items ! j)))]"
    and c: "\<forall>j<length demo_items.
        1 < length (stereo_cands (item_tree (demo_items ! j))) \<and>
        Str (smiles3D (item_tree (demo_items ! j))) \<notin> set (stereo_cands (item_tree (demo_items ! j))) \<longrightarrow>
        stereo_cands (ts' ! j) =
          stereo_cands (item_tree (demo_items ! j)) @ [Str (smiles3D (item_tree (demo_items ! j)))]"
    and d: "(\<exists>j<length demo_items. \<exists>p\<in>set (nodes_dict (item_tree (demo_items ! j))). idx (snd p) = None) \<longrightarrow>
        ts' \<noteq> map item_tree demo_items"
    by simp_all
  have l0: "0 < length demo_items" and l1: "1 < length demo_items"
    unfolding len by simp_all
  from b [rule_format, OF l0 d0] have i0: "map (idx \<circ> snd) (nodes_dict (ts' ! 0)) = [Some 0, Some 1]"
    unfolding n0 o0 by simp
  from b [rule_format, OF l1 d1] have i1: "map (idx \<circ> snd) (nodes_dict (ts' ! 1)) = [Some 2, Some 3, Some 4]"
    unfolding n1 o1 by simp
  from c [rule_format, OF l1 s1] have sc: "stereo_cands (ts' ! 1) =
       [Str ''C[C@@H](N)c1ccccc1'', Str ''CC(N)c1ccccc1'', Str ''C[C@H](N)c1ccccc1'']"
    unfolding t1 by (simp add: tree_B_def)
  from d u have ne: "ts' \<noteq> map item_tree demo_items" by simp
  from eq a len i0 i1 sc ne show ?thesis
    by (intro exI [of _ r] exI [of _ ts']) simp
qed

end
